theory Spec2Isabelle
  imports Complex_Main
begin

section \<open>The wallet broker of gitmolife/misskey\<close>

text \<open>
  The development embeds three pieces of the repository:
  \<^item> \<open>parseFromIntString\<close> of \<open>services/intercom/intercom-broker.ts\<close> (lines 157-179);
  \<^item> the NOTIFY and HEARTBEAT message handlers registered by \<open>setup\<close> in the same file
    (lines 182-421);
  \<^item> the handler of the endpoint \<open>server/api/endpoints/wallet/address.ts\<close>.

  Conventions of the embedding.
  \<^item> A table is the list of its rows in insertion order. A query with a \<open>where\<close> clause
    and \<open>getCount\<close> counts the matching rows, \<open>getOne\<close>/\<open>findOne\<close> returns the first
    matching row or nothing, an \<open>update\<close> rewrites every matching row, an \<open>insert\<close> appends.
  \<^item> The handlers run no database transaction: each statement takes effect when it is
    executed. A handler therefore returns the database as it stands when the handler
    stops, together with what became of the call: the string passed to \<open>sendReply\<close>, or
    the exception that ended it (then \<open>sendReply\<close> was never reached).
  \<^item> \<open>rxData\<close> is taken as already parsed (\<open>JSON.parse\<close>); the payload is a record of
    the fields the handler reads.
  \<^item> JavaScript numbers that hold confirmations, heights and states are integers.
    The two operations on amounts, \<open>parseFloat\<close> and \<open>+\<close> on a stored balance, are
    parameters of the model (record \<open>runtime\<close>); the binary64 instance \<open>double\<close> below
    is used to run the handlers on concrete inputs.
\<close>

subsection \<open>Strings: \<open>substring\<close> and \<open>parseFromIntString\<close>\<close>

text \<open>
  \<open>String.prototype.substring(a, b)\<close>: both indices are clamped to \<open>[0, length]\<close> and
  swapped when the first exceeds the second.
\<close>

definition substring :: "string \<Rightarrow> int \<Rightarrow> int \<Rightarrow> string" where
  "substring s a b =
     (let n = int (length s);
          a' = max 0 (min a n);
          b' = max 0 (min b n);
          lo = min a' b';
          hi = max a' b'
      in take (nat (hi - lo)) (drop (nat lo) s))"

text \<open>
  The \<open>for\<close> loop of the else branch (lines 170-176): \<open>i\<close> runs from its start value up
  to \<open>precision\<close>; a position inside the string appends its character, a position beyond
  it puts a zero in front.
\<close>

function pad_loop :: "string \<Rightarrow> int \<Rightarrow> int \<Rightarrow> string \<Rightarrow> string" where
  "pad_loop intString precision i decimals =
     (if i < precision
      then pad_loop intString precision (i + 1)
             (if i \<le> int (length intString) - 1
              then decimals @ substring intString i (i + 1)
              else CHR ''0'' # decimals)
      else decimals)"
  by pat_completeness auto
termination
  by (relation "measure (\<lambda>(s, p, i, d). nat (p - i))") auto

declare pad_loop.simps [simp del]

definition parseFromIntString :: "string \<Rightarrow> int \<Rightarrow> string" where
  "parseFromIntString intString precision =
     (let len = int (length intString)
      in if len > precision
         then substring intString 0 (len - precision) @ ''.'' @
              substring intString (len - precision) len
         else ''0'' @ ''.'' @ pad_loop intString precision 0 '''')"

subsection \<open>Reading decimal text\<close>

text \<open>
  The value of a string of decimal digits, and of a decimal text \<open><int>.<frac>\<close>; these
  state what the conversion is for and are not part of the program.
\<close>

definition digit :: "char \<Rightarrow> bool" where
  "digit c = (48 \<le> (of_char c :: nat) \<and> (of_char c :: nat) \<le> 57)"

definition digit_value :: "char \<Rightarrow> nat" where
  "digit_value c = of_char c - 48"

definition integer_value :: "string \<Rightarrow> nat" where
  "integer_value s = foldl (\<lambda>n c. 10 * n + digit_value c) 0 s"

definition decimal_value :: "string \<Rightarrow> real" where
  "decimal_value t =
     (let ipart = takeWhile (\<lambda>c. c \<noteq> CHR ''.'') t;
          fpart = drop 1 (dropWhile (\<lambda>c. c \<noteq> CHR ''.'') t)
      in of_nat (integer_value ipart) + of_nat (integer_value fpart) / 10 ^ length fpart)"

subsection \<open>Outcomes of a handler\<close>

text \<open>
  The exceptions the handlers can raise: a \<open>ReferenceError\<close> (a \<open>const\<close> read before its
  declaration has run), a \<open>TypeError\<close> (a property read on \<open>undefined\<close>) and the
  \<open>QueryFailedError\<close> with which the database layer rejects an insert that breaks a
  uniqueness constraint.
\<close>

datatype error = ReferenceError | TypeError | QueryFailedError

datatype outcome = Replied string | Threw error

text \<open>
  The number operations the NOTIFY handler uses on amounts: \<open>parseFloat\<close> (line 325) and
  the \<open>+\<close> of \<open>userBalance.balance + bal\<close> (line 353), over whatever the runtime and
  the balance column take as a number.
\<close>

record 'n runtime =
  parseFloat :: "string \<Rightarrow> 'n"
  js_plus :: "'n \<Rightarrow> 'n \<Rightarrow> 'n"

subsection \<open>The binary64 instance of the number operations\<close>

text \<open>
  A JavaScript number is an IEEE 754 binary64 value. A finite one is a real of the form
  \<open>m * 2^e\<close> with \<open>\<bar>m\<bar> < 2^53\<close>; \<open>to_double\<close> rounds a real to the nearest such value,
  ties to the even significand: with \<open>2^k \<le> \<bar>x\<bar> < 2^(k+1)\<close> the spacing of the values
  around \<open>x\<close> is \<open>2^(k-52)\<close>. Overflow to infinity and the subnormal range are left out:
  the instance is meant for magnitudes between \<open>2^-1022\<close> and \<open>2^1024\<close>, and for texts
  of the form \<open>digits.digits\<close>, which is what \<open>parseFromIntString\<close> makes of a string
  of digits. In this instance a number column holds the number it was given, unchanged.
\<close>

fun bit_length :: "nat \<Rightarrow> nat" where
  "bit_length n = (if n = 0 then 0 else Suc (bit_length (n div 2)))"

declare bit_length.simps [simp del]

definition pow2 :: "int \<Rightarrow> real" where
  "pow2 k = (if 0 \<le> k then 2 ^ nat k else 1 / 2 ^ nat (- k))"

text \<open>The \<open>k\<close> with \<open>2^k \<le> x < 2^(k+1)\<close>, for a positive \<open>x\<close>.\<close>

definition floor_log2 :: "real \<Rightarrow> int" where
  "floor_log2 x =
     (if 1 \<le> x then int (bit_length (nat \<lfloor>x\<rfloor>)) - 1
      else - int (bit_length (nat (\<lceil>1 / x\<rceil> - 1))))"

definition round_ties_even :: "real \<Rightarrow> int" where
  "round_ties_even x =
     (let f = \<lfloor>x\<rfloor>; d = x - of_int f
      in if d < 1 / 2 then f else if 1 / 2 < d then f + 1 else if even f then f else f + 1)"

definition to_double :: "real \<Rightarrow> real" where
  "to_double x =
     (if x = 0 then 0
      else (let ulp = pow2 (floor_log2 \<bar>x\<bar> - 52)
            in of_int (round_ties_even (x / ulp)) * ulp))"

definition double :: "real runtime" where
  "double = \<lparr>parseFloat = (\<lambda>s. to_double (decimal_value s)),
             js_plus = (\<lambda>x y. to_double (x + y))\<rparr>"

subsection \<open>Tables\<close>

text \<open>
  The columns are those the handlers name. \<open>tx_processed\<close> is read as a flag: the code
  writes \<open>1\<close> to it (line 318) and, on a credit row, the map entry of the user (line 339),
  both truthy. \<open>st_updatedAt\<close> is \<open>None\<close> while no statement of the handler has written
  the column.
\<close>

record wallet_job =
  job_job :: string
  job_type :: string
  job_state :: int
  job_userId :: "string option"
  job_data :: string
  job_result :: "string option"

record 'n wallet_tx =
  tx_userId :: "string option"
  tx_txid :: string
  tx_blockhash :: string
  tx_coinType :: int
  tx_txtype :: int
  tx_confirms :: int
  tx_processed :: bool
  tx_amount :: "'n option"
  tx_complete :: bool

record wallet_address =
  addr_address :: string
  addr_userId :: "string option"

record 'n wallet_balance =
  bal_userId :: string
  bal_balance :: 'n

record wallet_status =
  st_type :: string
  st_online :: bool
  st_synced :: bool
  st_crawling :: bool
  st_blockheight :: int
  st_blockhash :: string
  st_blocktime :: int
  st_updatedAt :: "nat option"

record 'n database =
  user_wallet_job :: "wallet_job list"
  user_wallet_tx :: "'n wallet_tx list"
  user_wallet_address :: "wallet_address list"
  user_wallet_balance :: "'n wallet_balance list"
  user_wallet_status :: "wallet_status list"

subsection \<open>Payloads\<close>

record vout =
  address :: string
  balance :: string

record notify_json =
  txid :: string
  coin :: string
  confirmations :: int
  balances :: "vout list"

record heartbeat_json =
  hb_coin :: string
  hb_online :: bool
  hb_synced :: bool
  hb_crawling :: bool
  hb_blockheight :: int
  hb_bestBlockHash :: string
  hb_blocktime :: int

subsection \<open>Inserts under the uniqueness constraints\<close>

text \<open>
  Modelled from the spec: the table declarations (the entities of \<open>user_wallet_tx\<close> and
  \<open>user_wallet_job\<close>) are not among the sources. Section 6 of the specification requires
  \<open>user_wallet_tx(txid, txType, userId)\<close> composite unique and \<open>user_wallet_job(job)\<close>
  unique; an insert that would break the constraint is rejected and the table is left as
  it was. Columns an insert does not name take the defaults of section 4.E, step 1:
  \<open>complete = false\<close>, \<open>processed = false\<close>, no amount. (Whether two rows without a
  user count as equal under the constraint plays no role: the handler inserts such a row
  only when the txid has no row at all.)
\<close>

definition insert_tx :: "'n wallet_tx \<Rightarrow> 'n database \<Rightarrow> error + 'n database" where
  "insert_tx row db =
     (if \<exists>r \<in> set (user_wallet_tx db).
           tx_txid r = tx_txid row \<and> tx_txtype r = tx_txtype row \<and> tx_userId r = tx_userId row
      then Inl QueryFailedError
      else Inr (db\<lparr>user_wallet_tx := user_wallet_tx db @ [row]\<rparr>))"

definition insert_job :: "wallet_job \<Rightarrow> 'n database \<Rightarrow> error + 'n database" where
  "insert_job row db =
     (if \<exists>j \<in> set (user_wallet_job db). job_job j = job_job row
      then Inl QueryFailedError
      else Inr (db\<lparr>user_wallet_job := user_wallet_job db @ [row]\<rparr>))"

subsection \<open>The NOTIFY handler\<close>

text \<open>\<open>Map.prototype.set\<close>: an existing key keeps its place and takes the new value, a new
  key goes last; \<open>keys()\<close> iterates in that order.\<close>

fun map_set :: "'k \<Rightarrow> 'v \<Rightarrow> ('k \<times> 'v) list \<Rightarrow> ('k \<times> 'v) list" where
  "map_set k v [] = [(k, v)]"
| "map_set k v ((k', v') # m) = (if k' = k then (k, v) # m else (k', v') # map_set k v m)"

text \<open>Lines 225-250: create the transaction entry, or overwrite \<open>confirms\<close> on every row
  of the txid.\<close>

definition create_or_update_tx :: "notify_json \<Rightarrow> bool \<Rightarrow> 'n database \<Rightarrow> error + 'n database" where
  "create_or_update_tx json txe db =
     (if \<not> txe
      then insert_tx
             \<lparr>tx_userId = None, tx_txid = txid json, tx_blockhash = [], tx_coinType = 0,
              tx_txtype = 1, tx_confirms = confirmations json, tx_processed = False,
              tx_amount = None, tx_complete = False\<rparr> db
      else Inr (db\<lparr>user_wallet_tx :=
                  map (\<lambda>r. if tx_txid r = txid json
                            then r\<lparr>tx_confirms := confirmations json\<rparr> else r)
                      (user_wallet_tx db)\<rparr>))"

text \<open>Lines 297-306: the job of the txid is marked processed for the user.\<close>

definition process_job :: "notify_json \<Rightarrow> string \<Rightarrow> 'n database \<Rightarrow> 'n database" where
  "process_job json userId db =
     db\<lparr>user_wallet_job :=
          map (\<lambda>j. if job_job j = txid json
                    then j\<lparr>job_userId := Some userId, job_state := 3, job_result := Some ''okay''\<rparr>
                    else j)
              (user_wallet_job db)\<rparr>"

text \<open>
  Lines 268-309: the loop over \<open>json.balances\<close>. An address that is on file with a
  user enters the map \<open>users\<close> under the address, and the job is created (when \<open>jobe\<close> is
  false) or marked processed.
\<close>

fun check_job_loop ::
  "string \<Rightarrow> notify_json \<Rightarrow> bool \<Rightarrow> vout list \<Rightarrow> (string \<times> string \<times> string) list \<Rightarrow>
   'n database \<Rightarrow> (string \<times> string \<times> string) list \<times> 'n database \<times> error option" where
  "check_job_loop rxData json jobe [] users db = (users, db, None)"
| "check_job_loop rxData json jobe (bal # rest) users db =
     (case find (\<lambda>a. addr_address a = address bal) (user_wallet_address db) of
        None \<Rightarrow> check_job_loop rxData json jobe rest users db
      | Some addr \<Rightarrow>
          (case addr_userId addr of
             None \<Rightarrow> check_job_loop rxData json jobe rest users db
           | Some userId \<Rightarrow>
               (let users' = map_set (addr_address addr) (userId, balance bal) users
                in if \<not> jobe
                   then (case insert_job
                                \<lparr>job_job = txid json, job_type = coin json, job_state = 3,
                                 job_userId = Some userId, job_data = rxData,
                                 job_result = None\<rparr> db of
                           Inl e \<Rightarrow> (users', db, Some e)
                         | Inr db' \<Rightarrow> check_job_loop rxData json jobe rest users' db')
                   else check_job_loop rxData json jobe rest users'
                          (process_job json userId db))))"

text \<open>Lines 312-321: every row of the txid takes the confirmations, the completion flag
  and \<open>processed\<close>.\<close>

definition update_tx_entry :: "notify_json \<Rightarrow> 'n database \<Rightarrow> 'n database" where
  "update_tx_entry json db =
     db\<lparr>user_wallet_tx :=
          map (\<lambda>r. if tx_txid r = txid json
                    then r\<lparr>tx_confirms := confirmations json,
                           tx_complete := (confirmations json \<ge> 3),
                           tx_processed := True\<rparr>
                    else r)
              (user_wallet_tx db)\<rparr>"

text \<open>
  Lines 324-363: for each entry of \<open>users\<close>, in the order of its keys, a credit row
  (\<open>txtype 3\<close>) is inserted and the balance of the user is read, increased and written
  back. \<open>userBalance.balance\<close> on a missing row is a \<open>TypeError\<close>. (Line 358 closes
  the property \<open>balance: nbal\<close> with a semicolon inside the object literal; the statement
  is read as the update it spells.)
\<close>

fun credit_loop ::
  "'n runtime \<Rightarrow> notify_json \<Rightarrow> (string \<times> string \<times> string) list \<Rightarrow> 'n database \<Rightarrow>
   'n database \<times> error option" where
  "credit_loop js json [] db = (db, None)"
| "credit_loop js json ((usr, uid, b) # rest) db =
     (let bal = parseFloat js (parseFromIntString b 8)
      in case insert_tx
                \<lparr>tx_userId = Some uid, tx_txid = txid json, tx_blockhash = usr,
                 tx_coinType = 0, tx_txtype = 3, tx_confirms = confirmations json,
                 tx_processed = True, tx_amount = Some bal, tx_complete = True\<rparr> db of
           Inl e \<Rightarrow> (db, Some e)
         | Inr db1 \<Rightarrow>
             (case find (\<lambda>r. bal_userId r = uid) (user_wallet_balance db1) of
                None \<Rightarrow> (db1, Some TypeError)
              | Some userBalance \<Rightarrow>
                  (let nbal = js_plus js (bal_balance userBalance) bal
                   in credit_loop js json rest
                        (db1\<lparr>user_wallet_balance :=
                               map (\<lambda>r. if bal_userId r = uid then r\<lparr>bal_balance := nbal\<rparr> else r)
                                   (user_wallet_balance db1)\<rparr>))))"

text \<open>
  The handler (lines 184-368). The condition of line 209 is
  \<open>!jobe && !tx.complete && json.confirmations >= 0\<close>, while \<open>tx\<close> is a \<open>const\<close> that line
  253 of the same block declares: when \<open>jobe\<close> is false the second operand is evaluated
  and reading \<open>tx\<close> raises a \<open>ReferenceError\<close> (compiled to a \<open>var\<close>, \<open>tx\<close> is
  \<open>undefined\<close> there and \<open>tx.complete\<close> raises a \<open>TypeError\<close>); nothing has been written
  yet. When \<open>jobe\<close> is true the condition is false without \<open>tx\<close> being read. The body of
  that \<open>if\<close> (lines 210-221, the insert of a job in state 0) is therefore never run.
\<close>

definition NOTIFY_handler ::
  "'n runtime \<Rightarrow> string \<Rightarrow> notify_json \<Rightarrow> 'n database \<Rightarrow> 'n database \<times> outcome" where
  "NOTIFY_handler js rxData json db =
     (let jobe = (length (filter (\<lambda>j. job_job j = txid json) (user_wallet_job db)) > 0);
          txe = (length (filter (\<lambda>r. tx_txid r = txid json) (user_wallet_tx db)) > 0)
      in if \<not> jobe then (db, Threw ReferenceError)
         else
           (case create_or_update_tx json txe db of
              Inl e \<Rightarrow> (db, Threw e)
            | Inr db1 \<Rightarrow>
                (case find (\<lambda>r. tx_txid r = txid json) (user_wallet_tx db1) of
                   None \<Rightarrow> (db1, Replied ''Recieved NOTIFY'')
                 | Some tx \<Rightarrow>
                     if \<not> tx_complete tx \<and> confirmations json \<ge> 3
                     then (case check_job_loop rxData json jobe (balances json) [] db1 of
                             (users, db2, Some e) \<Rightarrow> (db2, Threw e)
                           | (users, db2, None) \<Rightarrow>
                               (case credit_loop js json users (update_tx_entry json db2) of
                                  (db3, Some e) \<Rightarrow> (db3, Threw e)
                                | (db3, None) \<Rightarrow> (db3, Replied ''Recieved NOTIFY'')))
                     else (db1, Replied ''Recieved NOTIFY''))))"

text \<open>Delivering the same payload \<open>n\<close> times, one after the other.\<close>

fun deliver ::
  "nat \<Rightarrow> 'n runtime \<Rightarrow> string \<Rightarrow> notify_json \<Rightarrow> 'n database \<Rightarrow> 'n database" where
  "deliver 0 js rxData json db = db"
| "deliver (Suc n) js rxData json db =
     deliver n js rxData json (fst (NOTIFY_handler js rxData json db))"

text \<open>Delivering a sequence of payloads.\<close>

fun deliver_all ::
  "'n runtime \<Rightarrow> (string \<times> notify_json) list \<Rightarrow> 'n database \<Rightarrow> 'n database" where
  "deliver_all js [] db = db"
| "deliver_all js ((rxData, json) # rest) db =
     deliver_all js rest (fst (NOTIFY_handler js rxData json db))"

subsection \<open>The HEARTBEAT handler\<close>

text \<open>
  Lines 373-420; \<open>now\<close> is the value of \<open>new Date()\<close>. The update names \<open>updatedAt\<close>, the
  insert does not. Neither statement is awaited; the model takes them as done before the
  next message is handled.
\<close>

definition HEARTBEAT_handler ::
  "nat \<Rightarrow> heartbeat_json \<Rightarrow> 'n database \<Rightarrow> 'n database \<times> outcome" where
  "HEARTBEAT_handler now json db =
     (let status = (length (filter (\<lambda>s. st_type s = hb_coin json) (user_wallet_status db)) > 0)
      in if status
         then (db\<lparr>user_wallet_status :=
                    map (\<lambda>s. if st_type s = hb_coin json
                              then s\<lparr>st_online := hb_online json,
                                     st_synced := hb_synced json,
                                     st_crawling := hb_crawling json,
                                     st_blockheight := hb_blockheight json,
                                     st_blockhash := hb_bestBlockHash json,
                                     st_blocktime := hb_blocktime json,
                                     st_updatedAt := Some now\<rparr>
                              else s)
                        (user_wallet_status db)\<rparr>,
               Replied ''Recieved HEARTBEAT'')
         else (db\<lparr>user_wallet_status :=
                    user_wallet_status db @
                    [\<lparr>st_type = hb_coin json,
                      st_online = hb_online json,
                      st_synced = hb_synced json,
                      st_crawling = hb_crawling json,
                      st_blockheight = hb_blockheight json,
                      st_blockhash = hb_bestBlockHash json,
                      st_blocktime = hb_blocktime json,
                      st_updatedAt = None\<rparr>]\<rparr>,
               Replied ''Recieved HEARTBEAT''))"

subsection \<open>The endpoint \<open>wallet/address\<close>\<close>

record user =
  user_id :: string

record params =
  ps_userId :: "string option"
  ps_username :: "string option"
  ps_host :: "string option"

datatype api_error = ApiError string string string

definition noSuchUser :: api_error where
  "noSuchUser = ApiError ''No such user.'' ''NO_SUCH_USER'' ''88b36214-5918-4cec-be59-df48a42c53d7''"

text \<open>\<open>me\<close> is the caller, \<open>None\<close> when the call carries no credential.\<close>

definition wallet_address_endpoint ::
  "user list \<Rightarrow> wallet_address list \<Rightarrow> params \<Rightarrow> user option \<Rightarrow> api_error + string" where
  "wallet_address_endpoint Users UserWalletAddresses ps me =
     (let user = (case me of
                    None \<Rightarrow> None
                  | Some m \<Rightarrow>
                      find (\<lambda>u. user_id u = (case ps_userId ps of Some i \<Rightarrow> i | None \<Rightarrow> user_id m))
                           Users)
      in case user of
           None \<Rightarrow> Inl noSuchUser
         | Some u \<Rightarrow>
             (case find (\<lambda>w. addr_userId w = Some (user_id u)) UserWalletAddresses of
                Some wallet \<Rightarrow> Inr (addr_address wallet)
              | None \<Rightarrow> Inr []))"

subsection \<open>Predicates on the tables\<close>

text \<open>A job row exists for the txid.\<close>

definition has_job :: "'n database \<Rightarrow> string \<Rightarrow> bool" where
  "has_job db t = (\<exists>j \<in> set (user_wallet_job db). job_job j = t)"

text \<open>At most one credit row (\<open>txtype 3\<close>) for a txid and a user.\<close>

definition credit_rows_unique :: "'n database \<Rightarrow> bool" where
  "credit_rows_unique db =
     distinct (map (\<lambda>r. (tx_txid r, tx_userId r))
                   (filter (\<lambda>r. tx_txtype r = 3) (user_wallet_tx db)))"

text \<open>The amounts of the credit rows of a user, in the order of the table.\<close>

definition credited_amounts :: "'n database \<Rightarrow> string \<Rightarrow> 'n list" where
  "credited_amounts db u =
     List.map_filter (\<lambda>r. if tx_txtype r = 3 \<and> tx_userId r = Some u then tx_amount r else None)
                     (user_wallet_tx db)"

text \<open>
  Every cached balance is what the additions of the handler make of the credit rows of
  its user: the amounts added one after the other, in the order of the rows, to \<open>zero\<close>.
\<close>

definition ledger_matches :: "'n runtime \<Rightarrow> 'n \<Rightarrow> 'n database \<Rightarrow> bool" where
  "ledger_matches js zero db =
     (\<forall>b \<in> set (user_wallet_balance db).
        bal_balance b = foldl (js_plus js) zero (credited_amounts db (bal_userId b)))"

subsection \<open>Concrete states and payloads\<close>

text \<open>
  The values used to run the handlers: the addresses \<open>A1\<close> and \<open>A2\<close> on file for user
  \<open>U1\<close>, a job in state 0, a database over these addresses with no status row, a NOTIFY
  payload of coin \<open>X\<close> and the HEARTBEAT payload of scenario 6.
\<close>

definition address_book :: "wallet_address list" where
  "address_book = [\<lparr>addr_address = ''A1'', addr_userId = Some ''U1''\<rparr>,
                   \<lparr>addr_address = ''A2'', addr_userId = Some ''U1''\<rparr>]"

definition pending_job :: "string \<Rightarrow> wallet_job" where
  "pending_job t = \<lparr>job_job = t, job_type = ''X'', job_state = 0, job_userId = None,
                    job_data = [], job_result = None\<rparr>"

definition wallet_db ::
  "wallet_job list \<Rightarrow> real wallet_tx list \<Rightarrow> real wallet_balance list \<Rightarrow> real database" where
  "wallet_db jobs txs bals =
     \<lparr>user_wallet_job = jobs, user_wallet_tx = txs, user_wallet_address = address_book,
      user_wallet_balance = bals, user_wallet_status = []\<rparr>"

definition notify :: "string \<Rightarrow> int \<Rightarrow> (string \<times> string) list \<Rightarrow> notify_json" where
  "notify t c bs = \<lparr>txid = t, coin = ''X'', confirmations = c,
                    balances = map (\<lambda>(a, b). \<lparr>address = a, balance = b\<rparr>) bs\<rparr>"

definition heartbeat :: "int \<Rightarrow> heartbeat_json" where
  "heartbeat h = \<lparr>hb_coin = ''X'', hb_online = True, hb_synced = True, hb_crawling = False,
                  hb_blockheight = h, hb_bestBlockHash = ''H'', hb_blocktime = 1700000000\<rparr>"

section \<open>Properties\<close>

subsection \<open>\<open>parseFromIntString\<close>\<close>

lemma substring_char:
  "0 \<le> i \<Longrightarrow> i < int (length s) \<Longrightarrow> substring s i (i + 1) = [s ! nat i]"
proof -
  assume a: "0 \<le> i" "i < int (length s)"
  have n: "nat i < length s" using a by linarith
  have "substring s i (i + 1) = take 1 (drop (nat i) s)"
    using a by (simp add: substring_def Let_def min_def max_def)
  also have "\<dots> = [s ! nat i]"
    using n by (metis Cons_nth_drop_Suc One_nat_def take0 take_Suc_Cons)
  finally show ?thesis .
qed

lemma substring_prefix:
  "0 \<le> k \<Longrightarrow> k \<le> int (length s) \<Longrightarrow> substring s 0 k = take (nat k) s"
  by (simp add: substring_def Let_def min_def max_def)

lemma substring_suffix:
  "0 \<le> k \<Longrightarrow> k \<le> int (length s) \<Longrightarrow> substring s k (int (length s)) = drop (nat k) s"
  by (simp add: substring_def Let_def min_def max_def)

lemma pad_loop_eq:
  "0 \<le> i \<Longrightarrow> i \<le> p \<Longrightarrow>
   pad_loop s p i d =
     replicate (nat (p - max i (int (length s)))) CHR ''0'' @ d @
     take (nat (min p (int (length s))) - nat i) (drop (nat i) s)"
proof (induction s p i d rule: pad_loop.induct)
  case (1 s p i d)
  show ?case
  proof (cases "i < p")
    case False
    with "1.prems" have "i = p" by simp
    then show ?thesis by (subst pad_loop.simps) (simp add: max_def)
  next
    case True
    note lt = True
    show ?thesis
    proof (cases "i \<le> int (length s) - 1")
      case True
      then have il: "i < int (length s)" by simp
      have n: "nat i < length s" using il "1.prems" by linarith
      have step: "pad_loop s p i d = pad_loop s p (i + 1) (d @ [s ! nat i])"
        using lt True substring_char[OF "1.prems"(1) il] by (subst pad_loop.simps) simp
      have ih: "pad_loop s p (i + 1) (d @ [s ! nat i]) =
          replicate (nat (p - max (i + 1) (int (length s)))) CHR ''0'' @ (d @ [s ! nat i]) @
          take (nat (min p (int (length s))) - nat (i + 1)) (drop (nat (i + 1)) s)"
        using "1.IH"[OF lt] lt True "1.prems" substring_char[OF "1.prems"(1) il] by simp
      have m: "max (i + 1) (int (length s)) = max i (int (length s))"
        using il by (simp add: max_def)
      have k: "nat (min p (int (length s))) - nat i = Suc (nat (min p (int (length s))) - nat (i + 1))"
        using il lt "1.prems" by (simp add: min_def) linarith
      have dr: "drop (nat i) s = s ! nat i # drop (nat (i + 1)) s"
        using n "1.prems" by (simp add: Cons_nth_drop_Suc nat_add_distrib)
      show ?thesis unfolding step ih m k dr by simp
    next
      case False
      then have ge: "int (length s) \<le> i" by simp
      have step: "pad_loop s p i d = pad_loop s p (i + 1) (CHR ''0'' # d)"
        using lt False by (subst pad_loop.simps) simp
      have ih: "pad_loop s p (i + 1) (CHR ''0'' # d) =
          replicate (nat (p - max (i + 1) (int (length s)))) CHR ''0'' @ (CHR ''0'' # d) @
          take (nat (min p (int (length s))) - nat (i + 1)) (drop (nat (i + 1)) s)"
        using "1.IH"[OF lt] lt False "1.prems" by simp
      have r: "replicate (nat (p - max i (int (length s)))) CHR ''0'' =
               replicate (nat (p - max (i + 1) (int (length s)))) CHR ''0'' @ [CHR ''0'']"
      proof -
        have "nat (p - max i (int (length s))) = Suc (nat (p - max (i + 1) (int (length s))))"
          using ge lt by (simp add: max_def)
        then show ?thesis by (simp only: replicate_Suc replicate_append_same)
      qed
      have e: "drop (nat i) s = []" "drop (nat (i + 1)) s = []"
        using ge "1.prems" by auto
      show ?thesis unfolding step ih r e by simp
    qed
  qed
qed

lemma parseFromIntString_eq:
  assumes "0 \<le> p"
  shows "parseFromIntString s p =
     (if int (length s) > p
      then take (length s - nat p) s @ ''.'' @ drop (length s - nat p) s
      else ''0'' @ ''.'' @ replicate (nat p - length s) CHR ''0'' @ s)"
proof (cases "int (length s) > p")
  case True
  have a: "nat (int (length s) - p) = length s - nat p" using assms True by linarith
  have "substring s 0 (int (length s) - p) = take (length s - nat p) s"
    using substring_prefix[of "int (length s) - p" s] assms True a by simp
  moreover have "substring s (int (length s) - p) (int (length s)) = drop (length s - nat p) s"
    using substring_suffix[of "int (length s) - p" s] assms True a by simp
  ultimately show ?thesis using True by (simp add: parseFromIntString_def Let_def)
next
  case False
  have "pad_loop s p 0 [] = replicate (nat p - length s) CHR ''0'' @ s"
  proof -
    have a: "nat (p - max 0 (int (length s))) = nat p - length s" using assms False by (simp add: max_def)
    have b: "nat (min p (int (length s))) = length s" using False by (simp add: min_def)
    show ?thesis using pad_loop_eq[of 0 p s "[]"] assms a b by simp
  qed
  then show ?thesis using False by (simp add: parseFromIntString_def Let_def)
qed

lemma integer_value_foldl:
  "foldl (\<lambda>n c. 10 * n + digit_value c) a s = a * 10 ^ length s + integer_value s"
proof (induction s arbitrary: a)
  case Nil
  show ?case by (simp add: integer_value_def)
next
  case (Cons c s)
  have "foldl (\<lambda>n c. 10 * n + digit_value c) a (c # s)
        = (10 * a + digit_value c) * 10 ^ length s + integer_value s"
    using Cons.IH[of "10 * a + digit_value c"] by simp
  moreover have "integer_value (c # s) = digit_value c * 10 ^ length s + integer_value s"
    using Cons.IH[of "digit_value c"] by (simp add: integer_value_def)
  ultimately show ?case by (simp add: algebra_simps)
qed

lemma integer_value_Cons:
  "integer_value (c # s) = digit_value c * 10 ^ length s + integer_value s"
  using integer_value_foldl[of "digit_value c" s] by (simp add: integer_value_def)

lemma integer_value_append:
  "integer_value (a @ b) = integer_value a * 10 ^ length b + integer_value b"
  using integer_value_foldl[of "integer_value a" b] by (simp add: integer_value_def)

lemma integer_value_zeros: "integer_value (replicate k CHR ''0'') = 0"
proof (induction k)
  case 0
  show ?case by (simp add: integer_value_def)
next
  case (Suc k)
  then show ?case by (simp add: integer_value_Cons digit_value_def)
qed

lemma decimal_value_point:
  assumes "CHR ''.'' \<notin> set a"
  shows "decimal_value (a @ ''.'' @ b) = of_nat (integer_value a) + of_nat (integer_value b) / 10 ^ length b"
proof -
  have p: "\<And>x. x \<in> set a \<Longrightarrow> x \<noteq> CHR ''.''" using assms by auto
  have t: "takeWhile (\<lambda>c. c \<noteq> CHR ''.'') (a @ ''.'' @ b) = a"
    using p by (simp add: takeWhile_append2)
  have d: "dropWhile (\<lambda>c. c \<noteq> CHR ''.'') (a @ ''.'' @ b) = ''.'' @ b"
    using p by (simp add: dropWhile_append2)
  show ?thesis unfolding decimal_value_def Let_def t d by simp
qed

lemma decimal_value_shift:
  assumes "CHR ''.'' \<notin> set a"
  shows "decimal_value (a @ ''.'' @ b) * 10 ^ length b = of_nat (integer_value (a @ b))"
  unfolding decimal_value_point[OF assms] integer_value_append
  by (simp add: field_simps)

lemma digits_no_point: "\<forall>c\<in>set s. digit c \<Longrightarrow> CHR ''.'' \<notin> set s"
  by (auto simp: digit_def)

text \<open>
  Claim C6. For a precision \<open>p \<ge> 0\<close> and a string \<open>s\<close> of length \<open>L\<close>,
  \<open>parseFromIntString s p\<close> is the text \<open>int.frac\<close> where, if \<open>L > p\<close>, \<open>int\<close> is the
  first \<open>L - p\<close> characters of \<open>s\<close> and \<open>frac\<close> the last \<open>p\<close>, and otherwise \<open>int\<close> is
  \<open>0\<close> and \<open>frac\<close> is \<open>s\<close> padded on the left with zeros to length \<open>p\<close>. When \<open>s\<close> is a
  string of digits, the decimal the text denotes, multiplied by \<open>10^p\<close>, is the integer
  \<open>s\<close> denotes.
\<close>

theorem parseFromIntString_decimal:
  assumes "0 \<le> p"
  shows "parseFromIntString s p =
           (if int (length s) > p
            then take (length s - nat p) s @ ''.'' @ drop (length s - nat p) s
            else ''0'' @ ''.'' @ replicate (nat p - length s) CHR ''0'' @ s)
         \<and> ((\<forall>c\<in>set s. digit c) \<longrightarrow>
              decimal_value (parseFromIntString s p) * 10 ^ nat p = of_nat (integer_value s))"
proof (intro conjI impI)
  show eq: "parseFromIntString s p =
           (if int (length s) > p
            then take (length s - nat p) s @ ''.'' @ drop (length s - nat p) s
            else ''0'' @ ''.'' @ replicate (nat p - length s) CHR ''0'' @ s)"
    by (rule parseFromIntString_eq[OF assms])
  assume dg: "\<forall>c\<in>set s. digit c"
  have np: "CHR ''.'' \<notin> set s" by (rule digits_no_point[OF dg])
  show "decimal_value (parseFromIntString s p) * 10 ^ nat p = of_nat (integer_value s)"
  proof (cases "int (length s) > p")
    case True
    let ?a = "take (length s - nat p) s" and ?b = "drop (length s - nat p) s"
    have len: "length ?b = nat p" using True assms by simp
    have npa: "CHR ''.'' \<notin> set ?a" using np by (meson in_set_takeD)
    have "decimal_value (?a @ ''.'' @ ?b) * 10 ^ length ?b = of_nat (integer_value (?a @ ?b))"
      by (rule decimal_value_shift[OF npa])
    then show ?thesis using True eq len by simp
  next
    case False
    let ?b = "replicate (nat p - length s) CHR ''0'' @ s"
    have len: "length ?b = nat p" using False assms by simp
    have npa: "CHR ''.'' \<notin> set ''0''" by simp
    have v: "integer_value (''0'' @ ?b) = integer_value s"
      by (simp add: integer_value_append integer_value_zeros integer_value_Cons digit_value_def)
    have "decimal_value (''0'' @ ''.'' @ ?b) * 10 ^ length ?b = of_nat (integer_value (''0'' @ ?b))"
      by (rule decimal_value_shift[OF npa])
    then show ?thesis using False eq len v by simp
  qed
qed

text \<open>The claim at \<open>s = 150000000\<close> and \<open>s = 15\<close>, \<open>p = 8\<close>.\<close>

theorem parseFromIntString_decimal_witness:
  "(0::int) \<le> 8
   \<and> parseFromIntString ''150000000'' 8 = ''1.50000000''
   \<and> parseFromIntString ''15'' 8 = ''0.00000015''
   \<and> list_all digit ''150000000''
   \<and> decimal_value ''1.50000000'' * 10 ^ 8 = 150000000"
proof -
  have d: "\<forall>c\<in>set ''150000000''. digit c" by (simp add: digit_def)
  have v: "integer_value ''150000000'' = 150000000"
    by (simp add: integer_value_def digit_value_def)
  have a: "parseFromIntString ''150000000'' 8 = ''1.50000000''"
    using parseFromIntString_decimal[of 8 "''150000000''"] by simp
  have b: "parseFromIntString ''15'' 8 = ''0.00000015''"
    using parseFromIntString_decimal[of 8 "''15''"] by (simp add: numeral_eq_Suc)
  have c: "decimal_value ''1.50000000'' * 10 ^ 8 = 150000000"
    using parseFromIntString_decimal[of 8 "''150000000''"] d v a by simp
  have e: "list_all digit ''150000000''" by (simp add: digit_def)
  show ?thesis using a b c e by simp
qed

subsection \<open>The NOTIFY handler: one delivery\<close>

lemma count_pos_iff: "(0 < length (filter P xs)) = (\<exists>x\<in>set xs. P x)"
  by (simp add: filter_empty_conv)

lemma filter_ne_iff: "(filter P xs \<noteq> []) = (\<exists>x\<in>set xs. P x)"
  by (simp add: filter_empty_conv)

lemma filter_e_iff: "(filter P xs = []) = (\<forall>x\<in>set xs. \<not> P x)"
  by (simp add: filter_empty_conv)

lemma find_None_iff': "(find P xs = None) = (\<not> (\<exists>x\<in>set xs. P x))"
  by (auto simp: find_None_iff)

lemma find_Some_set: "find P xs = Some x \<Longrightarrow> x \<in> set xs \<and> P x"
  by (auto simp: find_Some_iff)

lemma insert_tx_fresh:
  "\<not> (\<exists>r\<in>set (user_wallet_tx db). tx_txid r = tx_txid row) \<Longrightarrow>
   insert_tx row db = Inr (db\<lparr>user_wallet_tx := user_wallet_tx db @ [row]\<rparr>)"
  by (auto simp: insert_tx_def)

lemma refresh_id:
  "\<forall>r\<in>set xs. tx_txid r = t \<longrightarrow> tx_confirms r = c \<Longrightarrow>
   map (\<lambda>r. if tx_txid r = t then r\<lparr>tx_confirms := c\<rparr> else r) xs = xs"
  by (induction xs) auto

lemma process_job_fields [simp]:
  "user_wallet_tx (process_job json u db) = user_wallet_tx db"
  "user_wallet_address (process_job json u db) = user_wallet_address db"
  "user_wallet_balance (process_job json u db) = user_wallet_balance db"
  "user_wallet_status (process_job json u db) = user_wallet_status db"
  "map job_job (user_wallet_job (process_job json u db)) = map job_job (user_wallet_job db)"
  by (simp_all add: process_job_def comp_def)

lemma check_job_loop_jobe:
  "check_job_loop rx json True bs users db = (us, db', e) \<Longrightarrow>
     e = None
   \<and> user_wallet_tx db' = user_wallet_tx db
   \<and> user_wallet_address db' = user_wallet_address db
   \<and> user_wallet_balance db' = user_wallet_balance db
   \<and> user_wallet_status db' = user_wallet_status db
   \<and> map job_job (user_wallet_job db') = map job_job (user_wallet_job db)"
proof (induction bs arbitrary: users db)
  case Nil
  then show ?case by simp
next
  case (Cons b bs)
  show ?case
  proof (cases "find (\<lambda>a. addr_address a = address b) (user_wallet_address db)")
    case None
    with Cons.prems have "check_job_loop rx json True bs users db = (us, db', e)" by simp
    from Cons.IH[OF this] show ?thesis .
  next
    case (Some addr)
    show ?thesis
    proof (cases "addr_userId addr")
      case None
      with Some Cons.prems have "check_job_loop rx json True bs users db = (us, db', e)" by simp
      from Cons.IH[OF this] show ?thesis .
    next
      case (Some u)
      with \<open>find _ _ = Some addr\<close> Cons.prems
      have "check_job_loop rx json True bs (map_set (addr_address addr) (u, balance b) users)
              (process_job json u db) = (us, db', e)"
        by (simp add: Let_def)
      from Cons.IH[OF this] show ?thesis by simp
    qed
  qed
qed

lemma credit_loop_frame:
  "credit_loop js json us db = (db', e) \<Longrightarrow>
     user_wallet_job db' = user_wallet_job db
   \<and> user_wallet_address db' = user_wallet_address db
   \<and> user_wallet_status db' = user_wallet_status db
   \<and> map bal_userId (user_wallet_balance db') = map bal_userId (user_wallet_balance db)
   \<and> (\<exists>new. user_wallet_tx db' = user_wallet_tx db @ new
            \<and> (\<forall>r\<in>set new. tx_txid r = txid json \<and> tx_txtype r = 3
                   \<and> tx_confirms r = confirmations json \<and> tx_complete r))"
proof (induction us arbitrary: db)
  case Nil
  then show ?case by simp
next
  case (Cons x us)
  obtain usr uid b where x: "x = (usr, uid, b)" by (cases x) auto
  let ?row = "\<lparr>tx_userId = Some uid, tx_txid = txid json, tx_blockhash = usr,
                 tx_coinType = 0, tx_txtype = 3, tx_confirms = confirmations json,
                 tx_processed = True, tx_amount = Some (parseFloat js (parseFromIntString b 8)),
                 tx_complete = True\<rparr>"
  show ?case
  proof (cases "insert_tx ?row db")
    case (Inl err)
    with Cons.prems x have "db' = db" by (simp add: Let_def)
    then show ?thesis by simp
  next
    case (Inr db1)
    then have db1: "db1 = db\<lparr>user_wallet_tx := user_wallet_tx db @ [?row]\<rparr>"
      by (auto simp: insert_tx_def split: if_splits)
    show ?thesis
    proof (cases "find (\<lambda>r. bal_userId r = uid) (user_wallet_balance db1)")
      case None
      with Cons.prems x Inr have "db' = db1" by (simp add: Let_def)
      then show ?thesis using db1 by simp
    next
      case (Some ub)
      let ?db2 = "db1\<lparr>user_wallet_balance :=
                       map (\<lambda>r. if bal_userId r = uid
                                 then r\<lparr>bal_balance := js_plus js (bal_balance ub)
                                        (parseFloat js (parseFromIntString b 8))\<rparr> else r)
                           (user_wallet_balance db1)\<rparr>"
      from Cons.prems x Inr Some have "credit_loop js json us ?db2 = (db', e)"
        by (simp add: Let_def)
      from Cons.IH[OF this] obtain new where
        f: "user_wallet_job db' = user_wallet_job ?db2"
           "user_wallet_address db' = user_wallet_address ?db2"
           "user_wallet_status db' = user_wallet_status ?db2"
           "map bal_userId (user_wallet_balance db') = map bal_userId (user_wallet_balance ?db2)"
           "user_wallet_tx db' = user_wallet_tx ?db2 @ new"
           "\<forall>r\<in>set new. tx_txid r = txid json \<and> tx_txtype r = 3
                   \<and> tx_confirms r = confirmations json \<and> tx_complete r"
        by blast
      have b: "map bal_userId (user_wallet_balance ?db2) = map bal_userId (user_wallet_balance db)"
        using db1 by (simp add: comp_def if_distrib cong: if_cong)
      have "user_wallet_tx db' = user_wallet_tx db @ (?row # new)"
        using f(5) db1 by simp
      moreover have "\<forall>r\<in>set (?row # new). tx_txid r = txid json \<and> tx_txtype r = 3
                   \<and> tx_confirms r = confirmations json \<and> tx_complete r"
        using f(6) by simp
      ultimately show ?thesis using f(1-4) b db1 by (metis (no_types, lifting) database.select_convs database.surjective database.update_convs)
    qed
  qed
qed

lemma map_keeps_txid:
  "(\<And>r. tx_txid (f r) = tx_txid r) \<Longrightarrow>
   (\<exists>r\<in>set (map f xs). tx_txid r = t) = (\<exists>r\<in>set xs. tx_txid r = t)"
  by (induction xs) auto

lemma create_or_update_tx_result:
  fixes db :: "'n database" and json :: notify_json
  defines "txe \<equiv> 0 < length (filter (\<lambda>r. tx_txid r = txid json) (user_wallet_tx db))"
  shows "\<exists>db1. create_or_update_tx json txe db = Inr db1
     \<and> user_wallet_job db1 = user_wallet_job db
     \<and> user_wallet_address db1 = user_wallet_address db
     \<and> user_wallet_balance db1 = user_wallet_balance db
     \<and> user_wallet_status db1 = user_wallet_status db
     \<and> (\<exists>r\<in>set (user_wallet_tx db1). tx_txid r = txid json)
     \<and> (\<forall>r\<in>set (user_wallet_tx db1). tx_txid r = txid json \<longrightarrow> tx_confirms r = confirmations json)"
proof (cases txe)
  case False
  then have fresh: "\<not> (\<exists>r\<in>set (user_wallet_tx db). tx_txid r = txid json)"
    by (simp add: txe_def filter_e_iff)
  define row :: "'n wallet_tx" where
    "row = \<lparr>tx_userId = None, tx_txid = txid json, tx_blockhash = [], tx_coinType = 0,
              tx_txtype = 1, tx_confirms = confirmations json, tx_processed = False,
              tx_amount = None, tx_complete = False\<rparr>"
  have r: "tx_txid row = txid json" "tx_confirms row = confirmations json"
    by (simp_all add: row_def)
  have "create_or_update_tx json txe db = Inr (db\<lparr>user_wallet_tx := user_wallet_tx db @ [row]\<rparr>)"
    using False fresh r(1) unfolding create_or_update_tx_def row_def[symmetric]
    by (simp add: insert_tx_fresh)
  moreover have "\<forall>x\<in>set (user_wallet_tx db @ [row]). tx_txid x = txid json \<longrightarrow> tx_confirms x = confirmations json"
    using fresh r by auto
  moreover have "\<exists>x\<in>set (user_wallet_tx db @ [row]). tx_txid x = txid json"
    using r by auto
  ultimately show ?thesis
    by (intro exI[of _ "db\<lparr>user_wallet_tx := user_wallet_tx db @ [row]\<rparr>"]) simp
next
  case True
  then have ex: "\<exists>r\<in>set (user_wallet_tx db). tx_txid r = txid json"
    by (simp add: txe_def filter_ne_iff)
  define f :: "'n wallet_tx \<Rightarrow> 'n wallet_tx" where
    "f = (\<lambda>r. if tx_txid r = txid json then r\<lparr>tx_confirms := confirmations json\<rparr> else r)"
  have ft: "\<And>r. tx_txid (f r) = tx_txid r" by (simp add: f_def)
  have "create_or_update_tx json txe db = Inr (db\<lparr>user_wallet_tx := map f (user_wallet_tx db)\<rparr>)"
    using True by (simp add: create_or_update_tx_def f_def)
  moreover have "\<exists>r\<in>set (map f (user_wallet_tx db)). tx_txid r = txid json"
    using ex map_keeps_txid[of f "user_wallet_tx db" "txid json", OF ft] by blast
  moreover have "\<forall>r\<in>set (map f (user_wallet_tx db)). tx_txid r = txid json \<longrightarrow> tx_confirms r = confirmations json"
    by (auto simp: f_def)
  ultimately show ?thesis
    by (intro exI[of _ "db\<lparr>user_wallet_tx := map f (user_wallet_tx db)\<rparr>"]) simp
qed

lemma NOTIFY_no_job:
  "\<not> has_job db (txid json) \<Longrightarrow> NOTIFY_handler js rx json db = (db, Threw ReferenceError)"
  by (simp add: NOTIFY_handler_def has_job_def filter_e_iff Let_def)

lemma NOTIFY_fixpoint:
  assumes j: "has_job db (txid json)"
      and c: "\<forall>r\<in>set (user_wallet_tx db). tx_txid r = txid json \<longrightarrow> tx_confirms r = confirmations json"
      and f: "find (\<lambda>r. tx_txid r = txid json) (user_wallet_tx db) = Some tx"
      and q: "tx_complete tx \<or> confirmations json < 3"
  shows "NOTIFY_handler js rx json db = (db, Replied ''Recieved NOTIFY'')"
proof -
  have jobe: "0 < length (filter (\<lambda>j. job_job j = txid json) (user_wallet_job db))"
    using j by (simp add: has_job_def filter_ne_iff filter_e_iff)
  have txe: "0 < length (filter (\<lambda>r. tx_txid r = txid json) (user_wallet_tx db))"
    using find_Some_set[OF f] by (auto simp: filter_ne_iff)
  have cu: "create_or_update_tx json True db = Inr db"
    using refresh_id[OF c] by (simp add: create_or_update_tx_def)
  show ?thesis
    using jobe txe cu f q by (auto simp: NOTIFY_handler_def Let_def)
qed

lemma update_tx_entry_fields [simp]:
  "user_wallet_job (update_tx_entry json db) = user_wallet_job db"
  "user_wallet_address (update_tx_entry json db) = user_wallet_address db"
  "user_wallet_balance (update_tx_entry json db) = user_wallet_balance db"
  "user_wallet_status (update_tx_entry json db) = user_wallet_status db"
  by (simp_all add: update_tx_entry_def)

lemma update_tx_entry_rows:
  "r \<in> set (user_wallet_tx (update_tx_entry json db)) \<Longrightarrow> tx_txid r = txid json \<Longrightarrow>
   tx_confirms r = confirmations json \<and> tx_complete r = (3 \<le> confirmations json)"
  by (auto simp: update_tx_entry_def split: if_splits)

lemma update_tx_entry_ex:
  "(\<exists>r\<in>set (user_wallet_tx (update_tx_entry json db)). tx_txid r = t)
   = (\<exists>r\<in>set (user_wallet_tx db). tx_txid r = t)"
  unfolding update_tx_entry_def by (simp del: set_map) (rule map_keeps_txid, simp)

lemma has_job_keys: "has_job db t = (t \<in> set (map job_job (user_wallet_job db)))"
  by (auto simp: has_job_def)

lemma has_job_cong:
  "map job_job (user_wallet_job db') = map job_job (user_wallet_job db) \<Longrightarrow>
   has_job db' t = has_job db t"
  by (simp only: has_job_keys)

text \<open>After a delivery that found a job, the handler has nothing left to do for the
  same payload.\<close>

lemma NOTIFY_settles:
  fixes db :: "'n database" and json :: notify_json and js rx
  assumes j: "has_job db (txid json)"
  defines "db' \<equiv> fst (NOTIFY_handler js rx json db)"
  shows "has_job db' (txid json)
       \<and> (\<forall>r\<in>set (user_wallet_tx db'). tx_txid r = txid json \<longrightarrow> tx_confirms r = confirmations json)
       \<and> (\<exists>tx. find (\<lambda>r. tx_txid r = txid json) (user_wallet_tx db') = Some tx
               \<and> (tx_complete tx \<or> confirmations json < 3))"
proof -
  have jobe: "0 < length (filter (\<lambda>j. job_job j = txid json) (user_wallet_job db))"
    using j by (simp add: has_job_def filter_ne_iff filter_e_iff)
  obtain db1 where cu: "create_or_update_tx json
        (0 < length (filter (\<lambda>r. tx_txid r = txid json) (user_wallet_tx db))) db = Inr db1"
    and d1: "user_wallet_job db1 = user_wallet_job db"
            "\<exists>r\<in>set (user_wallet_tx db1). tx_txid r = txid json"
            "\<forall>r\<in>set (user_wallet_tx db1). tx_txid r = txid json \<longrightarrow> tx_confirms r = confirmations json"
    using create_or_update_tx_result[of json db] by blast
  have j1: "has_job db1 (txid json)" using j d1(1) by (simp add: has_job_def)
  obtain tx where f: "find (\<lambda>r. tx_txid r = txid json) (user_wallet_tx db1) = Some tx"
    using d1(2) by (cases "find (\<lambda>r. tx_txid r = txid json) (user_wallet_tx db1)")
                   (auto simp: find_None_iff')
  show ?thesis
  proof (cases "\<not> tx_complete tx \<and> 3 \<le> confirmations json")
    case False
    then have "NOTIFY_handler js rx json db = (db1, Replied ''Recieved NOTIFY'')"
      using jobe cu f by (auto simp: NOTIFY_handler_def Let_def)
    then have "db' = db1" by (simp add: db'_def)
    then show ?thesis using j1 d1(3) f False by auto
  next
    case True
    obtain us db2 e where cj: "check_job_loop rx json True (balances json) [] db1 = (us, db2, e)"
      by (cases "check_job_loop rx json True (balances json) [] db1") auto
    from check_job_loop_jobe[OF cj] have
      e: "e = None" and t2: "user_wallet_tx db2 = user_wallet_tx db1"
      and k2: "map job_job (user_wallet_job db2) = map job_job (user_wallet_job db1)"
      by simp_all
    obtain db3 e3 where cl: "credit_loop js json us (update_tx_entry json db2) = (db3, e3)"
      by (cases "credit_loop js json us (update_tx_entry json db2)") auto
    from credit_loop_frame[OF cl] obtain new where
      j3: "user_wallet_job db3 = user_wallet_job db2"
      and t3: "user_wallet_tx db3 = user_wallet_tx (update_tx_entry json db2) @ new"
      and n3: "\<forall>r\<in>set new. tx_txid r = txid json \<and> tx_txtype r = 3
                   \<and> tx_confirms r = confirmations json \<and> tx_complete r"
      by auto
    have res: "fst (NOTIFY_handler js rx json db) = db3"
      using jobe cu f True cj e cl
      by (cases e3) (auto simp: NOTIFY_handler_def Let_def)
    have hj: "has_job db3 (txid json)"
      using j1 has_job_cong[OF k2] j3 by (simp add: has_job_def)
    have rows: "\<forall>r\<in>set (user_wallet_tx db3). tx_txid r = txid json \<longrightarrow>
                  tx_confirms r = confirmations json \<and> tx_complete r"
      using t3 n3 update_tx_entry_rows[of _ json db2] True by auto
    have ex: "\<exists>r\<in>set (user_wallet_tx db3). tx_txid r = txid json"
      using t3 d1(2) t2 update_tx_entry_ex[of json db2 "txid json"] by auto
    then obtain tx3 where f3: "find (\<lambda>r. tx_txid r = txid json) (user_wallet_tx db3) = Some tx3"
      by (cases "find (\<lambda>r. tx_txid r = txid json) (user_wallet_tx db3)") (auto simp: find_None_iff')
    have "tx_complete tx3" using rows find_Some_set[OF f3] by blast
    then show ?thesis using hj rows f3 res by (auto simp: db'_def)
  qed
qed

text \<open>The handler writes nothing for a txid without a job row, and never removes the job
  row: whenever a delivery changed the database, a job row is on file afterwards.\<close>

lemma NOTIFY_change_has_job:
  assumes "fst (NOTIFY_handler js rx json db) \<noteq> db"
  shows "has_job (fst (NOTIFY_handler js rx json db)) (txid json)"
proof (cases "has_job db (txid json)")
  case False
  then show ?thesis using assms by (simp add: NOTIFY_no_job)
next
  case True
  from NOTIFY_settles[OF True, of js rx] show ?thesis by blast
qed

lemma NOTIFY_idempotent:
  "fst (NOTIFY_handler js rx json (fst (NOTIFY_handler js rx json db)))
   = fst (NOTIFY_handler js rx json db)"
proof (cases "has_job db (txid json)")
  case False
  then show ?thesis by (simp add: NOTIFY_no_job)
next
  case True
  from NOTIFY_settles[OF True, of js rx] obtain tx where
    s: "has_job (fst (NOTIFY_handler js rx json db)) (txid json)"
       "\<forall>r\<in>set (user_wallet_tx (fst (NOTIFY_handler js rx json db))).
           tx_txid r = txid json \<longrightarrow> tx_confirms r = confirmations json"
       "find (\<lambda>r. tx_txid r = txid json) (user_wallet_tx (fst (NOTIFY_handler js rx json db))) = Some tx"
       "tx_complete tx \<or> confirmations json < 3"
    by blast
  show ?thesis using NOTIFY_fixpoint[OF s, of js rx] by simp
qed

lemma deliver_once:
  "deliver (Suc n) js rx json db = fst (NOTIFY_handler js rx json db)"
proof (induction n arbitrary: db)
  case 0
  show ?case by simp
next
  case (Suc n)
  have "deliver (Suc (Suc n)) js rx json db
        = deliver (Suc n) js rx json (fst (NOTIFY_handler js rx json db))" by simp
  also have "\<dots> = fst (NOTIFY_handler js rx json (fst (NOTIFY_handler js rx json db)))"
    by (rule Suc.IH)
  also have "\<dots> = fst (NOTIFY_handler js rx json db)" by (rule NOTIFY_idempotent)
  finally show ?case .
qed

lemma find_map_keeps:
  "(\<And>r. P (f r) = P r) \<Longrightarrow> find P (map f xs) = map_option f (find P xs)"
  by (induction xs) auto

lemma NOTIFY_complete:
  assumes j: "has_job db (txid json)"
      and f: "find (\<lambda>r. tx_txid r = txid json) (user_wallet_tx db) = Some tx"
      and q: "tx_complete tx"
  shows "NOTIFY_handler js rx json db =
           (db\<lparr>user_wallet_tx :=
                 map (\<lambda>r. if tx_txid r = txid json
                           then r\<lparr>tx_confirms := confirmations json\<rparr> else r)
                     (user_wallet_tx db)\<rparr>,
            Replied ''Recieved NOTIFY'')"
proof -
  define g :: "'a wallet_tx \<Rightarrow> 'a wallet_tx" where
    "g = (\<lambda>r. if tx_txid r = txid json then r\<lparr>tx_confirms := confirmations json\<rparr> else r)"
  have jobe: "0 < length (filter (\<lambda>j. job_job j = txid json) (user_wallet_job db))"
    using j by (simp add: has_job_def filter_ne_iff)
  have txe: "0 < length (filter (\<lambda>r. tx_txid r = txid json) (user_wallet_tx db))"
    using find_Some_set[OF f] by (auto simp: filter_ne_iff)
  have cu: "create_or_update_tx json True db = Inr (db\<lparr>user_wallet_tx := map g (user_wallet_tx db)\<rparr>)"
    by (simp add: create_or_update_tx_def g_def)
  have "find (\<lambda>r. tx_txid r = txid json) (map g (user_wallet_tx db)) = Some (g tx)"
    using find_map_keeps[of "\<lambda>r. tx_txid r = txid json" g "user_wallet_tx db"] f
    by (simp add: g_def)
  moreover have "tx_complete (g tx)" using q by (simp add: g_def)
  ultimately show ?thesis
    using jobe txe cu unfolding g_def[symmetric]
    by (simp add: NOTIFY_handler_def Let_def g_def[symmetric])
qed

subsection \<open>The phases of the handler\<close>

lemma check_job_loop_preserves:
  assumes "\<And>d u. Q d \<Longrightarrow> Q (process_job json u d)"
  shows "Q db \<Longrightarrow> check_job_loop rx json True bs users db = (us, db', e) \<Longrightarrow> Q db'"
proof (induction bs arbitrary: users db)
  case Nil
  then show ?case by simp
next
  case (Cons b bs)
  show ?case
  proof (cases "find (\<lambda>a. addr_address a = address b) (user_wallet_address db)")
    case None
    with Cons.prems have "check_job_loop rx json True bs users db = (us, db', e)" by simp
    from Cons.IH[OF Cons.prems(1) this] show ?thesis .
  next
    case (Some addr)
    show ?thesis
    proof (cases "addr_userId addr")
      case None
      with Some Cons.prems have "check_job_loop rx json True bs users db = (us, db', e)" by simp
      from Cons.IH[OF Cons.prems(1) this] show ?thesis .
    next
      case (Some u)
      with \<open>find _ _ = Some addr\<close> Cons.prems
      have "check_job_loop rx json True bs (map_set (addr_address addr) (u, balance b) users)
              (process_job json u db) = (us, db', e)"
        by (simp add: Let_def)
      from Cons.IH[OF assms[OF Cons.prems(1)] this] show ?thesis .
    qed
  qed
qed

lemma NOTIFY_preserves:
  assumes q: "Q db"
    and a: "\<And>d txe d1. Q d \<Longrightarrow> create_or_update_tx json txe d = Inr d1 \<Longrightarrow> Q d1"
    and b: "\<And>d u. Q d \<Longrightarrow> Q (process_job json u d)"
    and c: "\<And>d. Q d \<Longrightarrow> Q (update_tx_entry json d)"
    and d: "\<And>d us d' e. Q d \<Longrightarrow> credit_loop js json us d = (d', e) \<Longrightarrow> Q d'"
  shows "Q (fst (NOTIFY_handler js rx json db))"
proof (cases "has_job db (txid json)")
  case False
  then show ?thesis using q by (simp add: NOTIFY_no_job)
next
  case True
  then have jobe: "0 < length (filter (\<lambda>j. job_job j = txid json) (user_wallet_job db))"
    by (simp add: has_job_def filter_ne_iff)
  obtain db1 where cu: "create_or_update_tx json
        (0 < length (filter (\<lambda>r. tx_txid r = txid json) (user_wallet_tx db))) db = Inr db1"
    and ex: "\<exists>r\<in>set (user_wallet_tx db1). tx_txid r = txid json"
    using create_or_update_tx_result[of json db] by blast
  have q1: "Q db1" by (rule a[OF q cu])
  obtain tx where f: "find (\<lambda>r. tx_txid r = txid json) (user_wallet_tx db1) = Some tx"
    using ex by (cases "find (\<lambda>r. tx_txid r = txid json) (user_wallet_tx db1)")
                (auto simp: find_None_iff')
  show ?thesis
  proof (cases "\<not> tx_complete tx \<and> 3 \<le> confirmations json")
    case False
    then have "NOTIFY_handler js rx json db = (db1, Replied ''Recieved NOTIFY'')"
      using jobe cu f by (auto simp: NOTIFY_handler_def Let_def)
    then show ?thesis using q1 by simp
  next
    case True
    obtain us db2 e where cj: "check_job_loop rx json True (balances json) [] db1 = (us, db2, e)"
      by (cases "check_job_loop rx json True (balances json) [] db1") auto
    have e: "e = None" using check_job_loop_jobe[OF cj] by simp
    have q2: "Q db2" using check_job_loop_preserves[of Q json, OF b q1 cj] .
    obtain db3 e3 where cl: "credit_loop js json us (update_tx_entry json db2) = (db3, e3)"
      by (cases "credit_loop js json us (update_tx_entry json db2)") auto
    have q3: "Q db3" by (rule d[OF c[OF q2] cl])
    have "fst (NOTIFY_handler js rx json db) = db3"
      using jobe cu f True cj e cl
      by (cases e3) (auto simp: NOTIFY_handler_def Let_def)
    then show ?thesis using q3 by simp
  qed
qed

subsection \<open>Rows of other transactions\<close>

lemma filter_map_others:
  "(\<And>r. P r \<Longrightarrow> f r = r) \<Longrightarrow> (\<And>r. P (f r) = P r) \<Longrightarrow> filter P (map f xs) = filter P xs"
  by (induction xs) auto

lemma create_or_update_tx_others:
  "create_or_update_tx json txe d = Inr d1 \<Longrightarrow>
   filter (\<lambda>r. tx_txid r \<noteq> txid json) (user_wallet_tx d1)
   = filter (\<lambda>r. tx_txid r \<noteq> txid json) (user_wallet_tx d)"
  by (cases txe)
     (auto simp: create_or_update_tx_def insert_tx_def filter_map_others split: if_splits)

lemma update_tx_entry_others:
  "filter (\<lambda>r. tx_txid r \<noteq> txid json) (user_wallet_tx (update_tx_entry json d))
   = filter (\<lambda>r. tx_txid r \<noteq> txid json) (user_wallet_tx d)"
  by (simp add: update_tx_entry_def filter_map_others)

lemma credit_loop_others:
  assumes "credit_loop js json us d = (d', e)"
  shows "filter (\<lambda>r. tx_txid r \<noteq> txid json) (user_wallet_tx d')
         = filter (\<lambda>r. tx_txid r \<noteq> txid json) (user_wallet_tx d)"
proof -
  from credit_loop_frame[OF assms] obtain new where
    "user_wallet_tx d' = user_wallet_tx d @ new" "\<forall>r\<in>set new. tx_txid r = txid json"
    by blast
  then show ?thesis by (simp add: filter_empty_conv)
qed

lemma NOTIFY_others:
  "filter (\<lambda>r. tx_txid r \<noteq> txid json) (user_wallet_tx (fst (NOTIFY_handler js rx json db)))
   = filter (\<lambda>r. tx_txid r \<noteq> txid json) (user_wallet_tx db)"
  by (rule NOTIFY_preserves[where Q = "\<lambda>d. filter (\<lambda>r. tx_txid r \<noteq> txid json) (user_wallet_tx d)
                                    = filter (\<lambda>r. tx_txid r \<noteq> txid json) (user_wallet_tx db)"])
     (simp_all add: create_or_update_tx_others update_tx_entry_others credit_loop_others)

subsection \<open>One credit row per transaction and user\<close>

lemma credit_keys_map:
  "(\<And>r. tx_txtype (f r) = tx_txtype r \<and> tx_txid (f r) = tx_txid r \<and> tx_userId (f r) = tx_userId r)
   \<Longrightarrow> map (\<lambda>r. (tx_txid r, tx_userId r)) (filter (\<lambda>r. tx_txtype r = 3) (map f xs))
     = map (\<lambda>r. (tx_txid r, tx_userId r)) (filter (\<lambda>r. tx_txtype r = 3) xs)"
  by (induction xs) auto

lemma create_or_update_tx_unique:
  "credit_rows_unique d \<Longrightarrow> create_or_update_tx json txe d = Inr d1 \<Longrightarrow> credit_rows_unique d1"
  by (cases txe)
     (auto simp: create_or_update_tx_def insert_tx_def credit_rows_unique_def credit_keys_map
           split: if_splits)

lemma update_tx_entry_unique:
  "credit_rows_unique d \<Longrightarrow> credit_rows_unique (update_tx_entry json d)"
  by (simp add: update_tx_entry_def credit_rows_unique_def credit_keys_map)

lemma insert_tx_unique:
  assumes u: "credit_rows_unique d" and i: "insert_tx row d = Inr d1"
  shows "credit_rows_unique d1"
proof -
  have fresh: "\<not> (\<exists>r\<in>set (user_wallet_tx d).
           tx_txid r = tx_txid row \<and> tx_txtype r = tx_txtype row \<and> tx_userId r = tx_userId row)"
    using i by (auto simp: insert_tx_def split: if_splits)
  have d1: "user_wallet_tx d1 = user_wallet_tx d @ [row]"
    using i by (auto simp: insert_tx_def split: if_splits)
  show ?thesis
  proof (cases "tx_txtype row = 3")
    case False
    then show ?thesis using u d1 by (simp add: credit_rows_unique_def)
  next
    case True
    have "(tx_txid row, tx_userId row) \<notin>
            set (map (\<lambda>r. (tx_txid r, tx_userId r))
                     (filter (\<lambda>r. tx_txtype r = 3) (user_wallet_tx d)))"
      using fresh True by auto
    then show ?thesis using u d1 True by (simp add: credit_rows_unique_def)
  qed
qed

lemma credit_loop_unique:
  "credit_rows_unique d \<Longrightarrow> credit_loop js json us d = (d', e) \<Longrightarrow> credit_rows_unique d'"
proof (induction us arbitrary: d)
  case Nil
  then show ?case by simp
next
  case (Cons x us)
  obtain usr uid b where x: "x = (usr, uid, b)" by (cases x) auto
  define row :: "'a wallet_tx" where
    "row = \<lparr>tx_userId = Some uid, tx_txid = txid json, tx_blockhash = usr,
            tx_coinType = 0, tx_txtype = 3, tx_confirms = confirmations json,
            tx_processed = True, tx_amount = Some (parseFloat js (parseFromIntString b 8)),
            tx_complete = True\<rparr>"
  show ?case
  proof (cases "insert_tx row d")
    case (Inl err)
    with Cons.prems x have "d' = d" by (simp add: Let_def row_def)
    then show ?thesis using Cons.prems(1) by simp
  next
    case (Inr d1)
    have u1: "credit_rows_unique d1" by (rule insert_tx_unique[OF Cons.prems(1) Inr])
    show ?thesis
    proof (cases "find (\<lambda>r. bal_userId r = uid) (user_wallet_balance d1)")
      case None
      with Cons.prems x Inr have "d' = d1" by (simp add: Let_def row_def)
      then show ?thesis using u1 by simp
    next
      case (Some ub)
      define d2 where "d2 = d1\<lparr>user_wallet_balance :=
                       map (\<lambda>r. if bal_userId r = uid
                                 then r\<lparr>bal_balance := js_plus js (bal_balance ub)
                                        (parseFloat js (parseFromIntString b 8))\<rparr> else r)
                           (user_wallet_balance d1)\<rparr>"
      have u2: "credit_rows_unique d2" using u1 by (simp add: d2_def credit_rows_unique_def)
      from Cons.prems x Inr Some have "credit_loop js json us d2 = (d', e)"
        by (simp add: Let_def row_def d2_def)
      from Cons.IH[OF u2 this] show ?thesis .
    qed
  qed
qed

lemma NOTIFY_unique:
  "credit_rows_unique db \<Longrightarrow> credit_rows_unique (fst (NOTIFY_handler js rx json db))"
proof (rule NOTIFY_preserves[where Q = credit_rows_unique])
  fix d :: "'a database" and u
  assume "credit_rows_unique d"
  then show "credit_rows_unique (process_job json u d)"
    by (simp add: credit_rows_unique_def)
qed (auto intro: create_or_update_tx_unique update_tx_entry_unique credit_loop_unique)

lemma credit_loop_duplicate:
  assumes "\<exists>r\<in>set (user_wallet_tx db).
             tx_txid r = txid json \<and> tx_txtype r = 3 \<and> tx_userId r = Some uid"
  shows "credit_loop js json ((usr, uid, b) # rest) db = (db, Some QueryFailedError)"
  using assms by (auto simp: insert_tx_def Let_def)

subsection \<open>The cached balance and the credit rows\<close>












lemma foldl_plus_sum_list: "foldl (+) (a::real) xs = a + sum_list xs"
  by (induction xs arbitrary: a) simp_all

text \<open>Were the additions exact, the invariant would be the one of the specification: the
  cached balance is the sum of the amounts of the user's credit rows.\<close>

lemma ledger_matches_exact:
  fixes js :: "real runtime"
  shows "js_plus js = (+) \<Longrightarrow>
   ledger_matches js 0 db =
     (\<forall>b \<in> set (user_wallet_balance db).
        bal_balance b = sum_list (credited_amounts db (bal_userId b)))"
  by (simp add: ledger_matches_def foldl_plus_sum_list)

subsection \<open>The binary64 rounding\<close>

text \<open>\<open>floor_log2\<close> finds the binade of a positive real.\<close>

lemma bit_length_pos: "0 < n \<Longrightarrow> 0 < bit_length n"
  by (subst bit_length.simps) simp

lemma bit_length_bounds:
  "0 < n \<Longrightarrow> 2 ^ (bit_length n - 1) \<le> n \<and> n < 2 ^ bit_length n"
proof (induction n rule: bit_length.induct)
  case (1 n)
  show ?case
  proof (cases "n div 2 = 0")
    case True
    with "1.prems" have "n = 1" by (simp add: div_eq_0_iff) 
    then show ?thesis by (simp add: bit_length.simps)
  next
    case False
    then have pos: "0 < n div 2" by simp
    from "1.IH" "1.prems" pos
    have ih: "2 ^ (bit_length (n div 2) - 1) \<le> n div 2" "n div 2 < 2 ^ bit_length (n div 2)"
      by simp_all
    have bl: "bit_length n = Suc (bit_length (n div 2))"
      using "1.prems" by (subst bit_length.simps) simp
    obtain k where k: "bit_length (n div 2) = Suc k"
      using bit_length_pos[OF pos] by (cases "bit_length (n div 2)") auto
    have "2 ^ (bit_length n - 1) = 2 * 2 ^ (bit_length (n div 2) - 1)"
      unfolding bl k by simp
    also have "\<dots> \<le> 2 * (n div 2)" using ih(1) by simp
    also have "\<dots> \<le> n" by simp
    finally have lo: "2 ^ (bit_length n - 1) \<le> n" .
    have "n < 2 * (n div 2) + 2" by presburger
    also have "\<dots> \<le> 2 * 2 ^ bit_length (n div 2)" using ih(2) by simp
    finally have hi: "n < 2 ^ bit_length n" using bl by simp
    show ?thesis using lo hi by simp
  qed
qed

lemma bit_length_real:
  assumes "0 < n"
  shows "(2::real) ^ (bit_length n - 1) \<le> real n" and "real n + 1 \<le> 2 ^ bit_length n"
proof -
  from bit_length_bounds[OF assms]
  have b: "2 ^ (bit_length n - 1) \<le> n" "Suc n \<le> 2 ^ bit_length n" by simp_all
  have "real (2 ^ (bit_length n - 1)) \<le> real n" using b(1) by (rule of_nat_mono)
  then show "(2::real) ^ (bit_length n - 1) \<le> real n" by simp
  have "real (Suc n) \<le> real (2 ^ bit_length n)" using b(2) by (rule of_nat_mono)
  then show "real n + 1 \<le> 2 ^ bit_length n" by simp
qed

lemma pow2_nat: "pow2 (int k) = 2 ^ k"
  by (simp add: pow2_def)

lemma pow2_neg: "pow2 (- int k) = 1 / 2 ^ k"
proof (cases "k = 0")
  case True
  then show ?thesis by (simp add: pow2_def)
next
  case False
  then have "\<not> 0 \<le> - int k" by simp
  then show ?thesis by (simp add: pow2_def)
qed


lemma floor_log2_bounds:
  assumes "0 < x"
  shows "pow2 (floor_log2 x) \<le> x \<and> x < pow2 (floor_log2 x + 1)"
proof (cases "1 \<le> x")
  case True
  define n where "n = nat \<lfloor>x\<rfloor>"
  have f1: "1 \<le> \<lfloor>x\<rfloor>" using True by simp
  have n1: "0 < n" using f1 by (simp add: n_def)
  have rn: "real n = of_int \<lfloor>x\<rfloor>" using f1 by (simp add: n_def)
  have nx: "real n \<le> x" "x < real n + 1" unfolding rn by linarith+
  obtain k where k: "bit_length n = Suc k"
    using bit_length_pos[OF n1] by (cases "bit_length n") auto
  have fl: "floor_log2 x = int k"
    using True by (simp add: floor_log2_def n_def[symmetric] k)
  have lo: "(2::real) ^ k \<le> real n"
    using bit_length_real(1)[OF n1] unfolding k diff_Suc_1 .
  have hi: "real n + 1 \<le> 2 ^ Suc k"
    using bit_length_real(2)[OF n1] unfolding k .
  have "pow2 (int k) \<le> x"
    unfolding pow2_nat using lo nx(1) by (rule order_trans)
  moreover have "x < pow2 (int k + 1)"
  proof -
    have "int k + 1 = int (Suc k)" by simp
    then have "pow2 (int k + 1) = 2 ^ Suc k" by (simp only: pow2_nat)
    then show ?thesis using hi nx(2) by linarith
  qed
  ultimately show ?thesis unfolding fl by simp
next
  case False
  then have x1: "x < 1" by simp
  define y where "y = 1 / x"
  have y1: "1 < y" using assms x1 by (simp add: y_def)
  have xy: "x = 1 / y" using assms by (simp add: y_def)
  define m where "m = nat (\<lceil>y\<rceil> - 1)"
  have c2: "2 \<le> \<lceil>y\<rceil>" using y1 by linarith
  have m1: "0 < m" using c2 by (simp add: m_def)
  have rm: "real m = of_int \<lceil>y\<rceil> - 1" using c2 by (simp add: m_def)
  have my: "real m < y" "y \<le> real m + 1" unfolding rm by linarith+
  obtain k where k: "bit_length m = Suc k"
    using bit_length_pos[OF m1] by (cases "bit_length m") auto
  have fl: "floor_log2 x = - int (Suc k)"
    using False by (simp add: floor_log2_def m_def[symmetric] y_def[symmetric] k)
  have lo: "(2::real) ^ k \<le> real m"
    using bit_length_real(1)[OF m1] unfolding k diff_Suc_1 .
  have hi: "real m + 1 \<le> 2 ^ Suc k"
    using bit_length_real(2)[OF m1] unfolding k .
  have yhi: "y \<le> 2 ^ Suc k" using hi my(2) by linarith
  have ylo: "2 ^ k < y" using lo my(1) by linarith
  have "pow2 (- int (Suc k)) \<le> x"
    unfolding pow2_neg xy using yhi y1 by (intro frac_le) simp_all
  moreover have "x < pow2 (- int (Suc k) + 1)"
  proof -
    have "- int (Suc k) + 1 = - int k" by simp
    then have "pow2 (- int (Suc k) + 1) = 1 / 2 ^ k" by (simp only: pow2_neg)
    moreover have "1 / y < 1 / 2 ^ k" using ylo by (intro frac_less2) simp_all
    ultimately show ?thesis using xy by simp
  qed
  ultimately show ?thesis unfolding fl by simp
qed


lemma pow2_power_int: "pow2 k = 2 powi k"
  by (simp add: pow2_def power_int_def power_one_over inverse_eq_divide)

lemma pow2_add: "pow2 (a + b) = pow2 a * pow2 b"
  by (simp add: pow2_power_int power_int_add)

lemma pow2_pos: "0 < pow2 k"
  by (simp add: pow2_def)

lemma round_ties_even_near: "\<bar>of_int (round_ties_even y) - y\<bar> \<le> 1 / 2"
proof -
  have "of_int \<lfloor>y\<rfloor> \<le> y" "y < of_int \<lfloor>y\<rfloor> + 1" by linarith+
  then show ?thesis by (auto simp: round_ties_even_def Let_def)
qed

text \<open>\<open>to_double x\<close> is a multiple \<open>m * 2^k\<close> with \<open>\<bar>m\<bar> \<le> 2^53\<close>, where \<open>2^k\<close> is the
  spacing of binary64 at \<open>x\<close>, and it lies within half a spacing of \<open>x\<close>.\<close>

lemma to_double_nearest:
  assumes "x \<noteq> 0"
  defines "ulp \<equiv> pow2 (floor_log2 \<bar>x\<bar> - 52)"
  shows "\<exists>m. \<bar>m\<bar> \<le> 2 ^ 53 \<and> to_double x = of_int m * ulp \<and> \<bar>to_double x - x\<bar> \<le> ulp / 2"
proof -
  define m where "m = round_ties_even (x / ulp)"
  have up: "0 < ulp" by (simp add: ulp_def pow2_pos)
  have td: "to_double x = of_int m * ulp"
    using assms(1) by (simp add: to_double_def Let_def m_def ulp_def)
  have near: "\<bar>of_int m - x / ulp\<bar> \<le> 1 / 2"
    unfolding m_def by (rule round_ties_even_near)
  have "\<bar>to_double x - x\<bar> = \<bar>of_int m - x / ulp\<bar> * ulp"
  proof -
    have "to_double x - x = (of_int m - x / ulp) * ulp"
      using up by (simp add: td field_simps)
    then show ?thesis using up by (simp add: abs_mult)
  qed
  also have "\<dots> \<le> (1 / 2) * ulp"
    using near up by (intro mult_right_mono) simp_all
  finally have err: "\<bar>to_double x - x\<bar> \<le> ulp / 2" by simp
  have ax: "0 < \<bar>x\<bar>" using assms(1) by simp
  from floor_log2_bounds[OF ax]
  have hi: "\<bar>x\<bar> < pow2 (floor_log2 \<bar>x\<bar> + 1)" by simp
  have "pow2 (floor_log2 \<bar>x\<bar> + 1) = ulp * 2 ^ 53"
  proof -
    have "floor_log2 \<bar>x\<bar> + 1 = (floor_log2 \<bar>x\<bar> - 52) + 53" by simp
    then have "pow2 (floor_log2 \<bar>x\<bar> + 1) = ulp * pow2 53"
      unfolding ulp_def by (simp only: pow2_add)
    then show ?thesis by (simp add: pow2_def)
  qed
  then have "\<bar>x\<bar> / ulp < 2 ^ 53" using hi up by (simp add: field_simps)
  then have q: "\<bar>x / ulp\<bar> < 2 ^ 53" using up by (simp add: abs_divide)
  have "\<bar>real_of_int m\<bar> \<le> \<bar>of_int m - x / ulp\<bar> + \<bar>x / ulp\<bar>" by linarith
  then have "\<bar>real_of_int m\<bar> < 2 ^ 53 + 1 / 2" using near q by linarith
  then have "\<bar>real_of_int m\<bar> < 2 ^ 53 + 1" by linarith
  then have "real_of_int \<bar>m\<bar> < real_of_int (2 ^ 53 + 1)" by simp
  then have "\<bar>m\<bar> < 2 ^ 53 + 1" by (simp only: of_int_less_iff)
  then have "\<bar>m\<bar> \<le> 2 ^ 53" by simp
  then show ?thesis using td err by blast
qed

subsection \<open>Running the handlers\<close>

lemmas double_eval = double_def to_double_def floor_log2_def pow2_def round_ties_even_def
  bit_length.simps decimal_value_def integer_value_def digit_value_def

lemmas handler_eval = NOTIFY_handler_def create_or_update_tx_def insert_tx_def
  process_job_def update_tx_entry_def wallet_db_def address_book_def pending_job_def
  notify_def Let_def

lemma pfis_150: "parseFromIntString ''150000000'' 8 = ''1.50000000''"
  by (simp add: parseFromIntString_def substring_def)

lemma pfis_100: "parseFromIntString ''100000000'' 8 = ''1.00000000''"
  by (simp add: parseFromIntString_def substring_def)

lemma pfis_050: "parseFromIntString ''50000000'' 8 = ''0.50000000''"
  by (simp add: parseFromIntString_def substring_def pad_loop.simps)



lemma pf_150: "parseFloat double (parseFromIntString ''150000000'' 8) = 3 / 2"
  unfolding pfis_150 by (simp add: double_eval Let_def)

lemma pf_100: "parseFloat double (parseFromIntString ''100000000'' 8) = 1"
  unfolding pfis_100 by (simp add: double_eval Let_def)

lemma pf_050: "parseFloat double (parseFromIntString ''50000000'' 8) = 1 / 2"
  unfolding pfis_050 by (simp add: double_eval Let_def)



lemma plus_0_150: "js_plus double 0 (3 / 2) = 3 / 2"
  by (simp add: double_eval Let_def)

lemma plus_0_100: "js_plus double 0 1 = 1"
  by (simp add: double_eval Let_def)



subsection \<open>The claims\<close>

text \<open>
  Claim C4, at a prior state the claim admits: user \<open>U1\<close> owns \<open>A1\<close> with balance zero
  and nothing is on file for \<open>T1\<close>. The handler stops at line 209 with the database
  untouched: no transaction row, no job, no credit row, balance still zero, no reply.
\<close>

theorem scenario2_first_sighting:
  "NOTIFY_handler double rx (notify ''T1'' 3 [(''A1'', ''150000000'')])
     (wallet_db [] [] [\<lparr>bal_userId = ''U1'', bal_balance = 0\<rparr>])
   = (wallet_db [] [] [\<lparr>bal_userId = ''U1'', bal_balance = 0\<rparr>], Threw ReferenceError)"
  by (simp add: NOTIFY_handler_def wallet_db_def notify_def)

text \<open>
  The same delivery when a job row for \<open>T1\<close> is already on file: the state the claim
  describes is reached.
\<close>

lemma scenario2_with_job:
  "NOTIFY_handler double rx (notify ''T1'' 3 [(''A1'', ''150000000'')])
     (wallet_db [pending_job ''T1''] [] [\<lparr>bal_userId = ''U1'', bal_balance = 0\<rparr>])
   = (wallet_db
        [\<lparr>job_job = ''T1'', job_type = ''X'', job_state = 3, job_userId = Some ''U1'',
          job_data = [], job_result = Some ''okay''\<rparr>]
        [\<lparr>tx_userId = None, tx_txid = ''T1'', tx_blockhash = [], tx_coinType = 0,
          tx_txtype = 1, tx_confirms = 3, tx_processed = True, tx_amount = None,
          tx_complete = True\<rparr>,
         \<lparr>tx_userId = Some ''U1'', tx_txid = ''T1'', tx_blockhash = ''A1'', tx_coinType = 0,
          tx_txtype = 3, tx_confirms = 3, tx_processed = True, tx_amount = Some (3 / 2),
          tx_complete = True\<rparr>]
        [\<lparr>bal_userId = ''U1'', bal_balance = 3 / 2\<rparr>],
      Replied ''Recieved NOTIFY'')"
  by (simp add: handler_eval pf_150 plus_0_150)

text \<open>
  Claim C7, at a user with an address and no balance row: the credit row is inserted, the
  read of \<open>userBalance.balance\<close> raises, no balance row is created and no reply is sent.
\<close>

theorem credit_without_balance_row:
  "NOTIFY_handler double rx (notify ''T1'' 3 [(''A1'', ''150000000'')])
     (wallet_db [pending_job ''T1''] [] [])
   = (wallet_db
        [\<lparr>job_job = ''T1'', job_type = ''X'', job_state = 3, job_userId = Some ''U1'',
          job_data = [], job_result = Some ''okay''\<rparr>]
        [\<lparr>tx_userId = None, tx_txid = ''T1'', tx_blockhash = [], tx_coinType = 0,
          tx_txtype = 1, tx_confirms = 3, tx_processed = True, tx_amount = None,
          tx_complete = True\<rparr>,
         \<lparr>tx_userId = Some ''U1'', tx_txid = ''T1'', tx_blockhash = ''A1'', tx_coinType = 0,
          tx_txtype = 3, tx_confirms = 3, tx_processed = True, tx_amount = Some (3 / 2),
          tx_complete = True\<rparr>]
        [],
      Threw TypeError)"
  by (simp add: handler_eval pf_150)

lemma deliver_all_unique:
  "credit_rows_unique db \<Longrightarrow> credit_rows_unique (deliver_all js ps db)"
proof (induction ps arbitrary: db)
  case Nil
  then show ?case by simp
next
  case (Cons p ps)
  obtain rx json where p: "p = (rx, json)" by (cases p) auto
  show ?case unfolding p deliver_all.simps
    by (rule Cons.IH) (rule NOTIFY_unique[OF Cons.prems])
qed

text \<open>The credit loop over a list of entries in two parts; the rows it leaves; the
  handler on the branch of line 266; the handler when an insert is rejected.\<close>

lemma credit_loop_append:
  "credit_loop js json (xs @ ys) db =
     (case credit_loop js json xs db of
        (d, None) \<Rightarrow> credit_loop js json ys d
      | (d, Some e) \<Rightarrow> (d, Some e))"
proof (induction xs arbitrary: db)
  case Nil
  show ?case by simp
next
  case (Cons x xs)
  obtain usr uid b where x: "x = (usr, uid, b)" by (cases x) auto
  show ?case unfolding x
    by (simp add: Let_def Cons.IH split: sum.splits option.splits)
qed

lemma update_tx_entry_processed:
  "r \<in> set (user_wallet_tx (update_tx_entry json db)) \<Longrightarrow> tx_txid r = txid json \<Longrightarrow>
   tx_processed r"
  by (auto simp: update_tx_entry_def split: if_splits)

lemma credit_loop_processed:
  "credit_loop js json us db = (db', e) \<Longrightarrow>
   \<forall>r\<in>set (user_wallet_tx db). tx_txid r = txid json \<longrightarrow> tx_processed r \<Longrightarrow>
   \<forall>r\<in>set (user_wallet_tx db'). tx_txid r = txid json \<longrightarrow> tx_processed r"
proof (induction us arbitrary: db)
  case Nil
  then show ?case by simp
next
  case (Cons x us)
  obtain usr uid b where x: "x = (usr, uid, b)" by (cases x) auto
  define row :: "'a wallet_tx" where
    "row = \<lparr>tx_userId = Some uid, tx_txid = txid json, tx_blockhash = usr,
            tx_coinType = 0, tx_txtype = 3, tx_confirms = confirmations json,
            tx_processed = True, tx_amount = Some (parseFloat js (parseFromIntString b 8)),
            tx_complete = True\<rparr>"
  show ?case
  proof (cases "insert_tx row db")
    case (Inl err)
    with Cons.prems x have "db' = db" by (simp add: Let_def row_def)
    then show ?thesis using Cons.prems(2) by simp
  next
    case (Inr d1)
    then have t1: "user_wallet_tx d1 = user_wallet_tx db @ [row]"
      by (auto simp: insert_tx_def split: if_splits)
    have p1: "\<forall>r\<in>set (user_wallet_tx d1). tx_txid r = txid json \<longrightarrow> tx_processed r"
      using Cons.prems(2) t1 by (auto simp: row_def)
    show ?thesis
    proof (cases "find (\<lambda>r. bal_userId r = uid) (user_wallet_balance d1)")
      case None
      with Cons.prems x Inr have "db' = d1" by (simp add: Let_def row_def)
      then show ?thesis using p1 by simp
    next
      case (Some ub)
      define d2 where "d2 = d1\<lparr>user_wallet_balance :=
                       map (\<lambda>r. if bal_userId r = uid
                                 then r\<lparr>bal_balance := js_plus js (bal_balance ub)
                                        (parseFloat js (parseFromIntString b 8))\<rparr> else r)
                           (user_wallet_balance d1)\<rparr>"
      have p2: "\<forall>r\<in>set (user_wallet_tx d2). tx_txid r = txid json \<longrightarrow> tx_processed r"
        using p1 by (simp add: d2_def)
      have "credit_loop js json us d2 = (db', e)"
        using Cons.prems(1) Inr Some unfolding x d2_def row_def by (simp add: Let_def)
      from Cons.IH[OF this p2] show ?thesis .
    qed
  qed
qed

text \<open>The branch of line 266, run to its end or to the exception that stops it.\<close>

lemma NOTIFY_credit_branch:
  assumes j: "has_job db (txid json)"
    and cu: "create_or_update_tx json
        (0 < length (filter (\<lambda>r. tx_txid r = txid json) (user_wallet_tx db))) db = Inr db1"
    and f: "find (\<lambda>r. tx_txid r = txid json) (user_wallet_tx db1) = Some tx"
    and nc: "\<not> tx_complete tx" and c3: "3 \<le> confirmations json"
    and cj: "check_job_loop rx json True (balances json) [] db1 = (us, db2, e0)"
    and cl: "credit_loop js json us (update_tx_entry json db2) = (d, e)"
  shows "NOTIFY_handler js rx json db =
           (d, case e of None \<Rightarrow> Replied ''Recieved NOTIFY'' | Some x \<Rightarrow> Threw x)"
    and "d \<noteq> db"
    and "has_job d (txid json)"
    and "\<exists>r\<in>set (user_wallet_tx d). tx_txid r = txid json"
    and "\<forall>r\<in>set (user_wallet_tx d). tx_txid r = txid json \<longrightarrow>
           tx_complete r \<and> tx_processed r \<and> tx_confirms r = confirmations json"
proof -
  have jobe: "0 < length (filter (\<lambda>j. job_job j = txid json) (user_wallet_job db))"
    using j by (simp add: has_job_def filter_ne_iff filter_e_iff)
  have e0: "e0 = None" and t2: "user_wallet_tx db2 = user_wallet_tx db1"
    and k2: "map job_job (user_wallet_job db2) = map job_job (user_wallet_job db1)"
    using check_job_loop_jobe[OF cj] by simp_all
  show res: "NOTIFY_handler js rx json db =
           (d, case e of None \<Rightarrow> Replied ''Recieved NOTIFY'' | Some x \<Rightarrow> Threw x)"
    using jobe cu f nc c3 cj e0 cl
    by (cases e) (auto simp: NOTIFY_handler_def Let_def)
  from credit_loop_frame[OF cl] obtain new where
    j3: "user_wallet_job d = user_wallet_job db2"
    and t3: "user_wallet_tx d = user_wallet_tx (update_tx_entry json db2) @ new"
    and n3: "\<forall>r\<in>set new. tx_txid r = txid json \<and> tx_txtype r = 3
                   \<and> tx_confirms r = confirmations json \<and> tx_complete r"
    by auto
  have j1: "user_wallet_job db1 = user_wallet_job db"
    using cu by (auto simp: create_or_update_tx_def insert_tx_def split: if_splits)
  have "has_job db1 (txid json)" using j j1 by (simp add: has_job_def)
  then show hj: "has_job d (txid json)"
    using has_job_cong[OF k2] j3 by (simp add: has_job_def)
  have tin: "tx \<in> set (user_wallet_tx db1)" "tx_txid tx = txid json"
    using find_Some_set[OF f] by simp_all
  then have "\<exists>r\<in>set (user_wallet_tx db2). tx_txid r = txid json" using t2 by auto
  then show ex: "\<exists>r\<in>set (user_wallet_tx d). tx_txid r = txid json"
    using t3 update_tx_entry_ex[of json db2 "txid json"] by auto
  have pr: "\<forall>r\<in>set (user_wallet_tx d). tx_txid r = txid json \<longrightarrow> tx_processed r"
    by (rule credit_loop_processed[OF cl]) (auto dest: update_tx_entry_processed)
  show rows: "\<forall>r\<in>set (user_wallet_tx d). tx_txid r = txid json \<longrightarrow>
           tx_complete r \<and> tx_processed r \<and> tx_confirms r = confirmations json"
    using t3 n3 update_tx_entry_rows[of _ json db2] c3 pr by auto
  show "d \<noteq> db"
  proof
    assume eq: "d = db"
    show False
    proof (cases "0 < length (filter (\<lambda>r. tx_txid r = txid json) (user_wallet_tx db))")
      case False
      then have "\<not> (\<exists>r\<in>set (user_wallet_tx db). tx_txid r = txid json)"
        by (simp add: filter_e_iff)
      then show False using ex eq by simp
    next
      case True
      with cu have "user_wallet_tx db1 =
          map (\<lambda>r. if tx_txid r = txid json then r\<lparr>tx_confirms := confirmations json\<rparr> else r)
              (user_wallet_tx db)"
        by (auto simp: create_or_update_tx_def)
      with tin obtain r where r: "r \<in> set (user_wallet_tx db)"
        and tr: "tx = (if tx_txid r = txid json then r\<lparr>tx_confirms := confirmations json\<rparr> else r)"
        by auto
      have "tx_txid r = txid json" "\<not> tx_complete r"
        using tr tin(2) nc by (auto split: if_splits)
      then show False using rows r eq by auto
    qed
  qed
qed

lemma NOTIFY_rejected_insert:
  assumes q: "snd (NOTIFY_handler js rx json db) = Threw QueryFailedError"
  shows "fst (NOTIFY_handler js rx json db) \<noteq> db
       \<and> has_job (fst (NOTIFY_handler js rx json db)) (txid json)
       \<and> (\<exists>r\<in>set (user_wallet_tx (fst (NOTIFY_handler js rx json db))). tx_txid r = txid json)
       \<and> (\<forall>r\<in>set (user_wallet_tx (fst (NOTIFY_handler js rx json db))).
             tx_txid r = txid json \<longrightarrow>
             tx_complete r \<and> tx_processed r \<and> tx_confirms r = confirmations json)"
proof -
  have j: "has_job db (txid json)"
  proof (rule ccontr)
    assume "\<not> has_job db (txid json)"
    then show False using q by (simp add: NOTIFY_no_job)
  qed
  then have jobe: "0 < length (filter (\<lambda>j. job_job j = txid json) (user_wallet_job db))"
    by (simp add: has_job_def filter_ne_iff filter_e_iff)
  obtain db1 where cu: "create_or_update_tx json
        (0 < length (filter (\<lambda>r. tx_txid r = txid json) (user_wallet_tx db))) db = Inr db1"
    and ex: "\<exists>r\<in>set (user_wallet_tx db1). tx_txid r = txid json"
    using create_or_update_tx_result[of json db] by blast
  obtain tx where f: "find (\<lambda>r. tx_txid r = txid json) (user_wallet_tx db1) = Some tx"
    using ex by (cases "find (\<lambda>r. tx_txid r = txid json) (user_wallet_tx db1)")
                (auto simp: find_None_iff')
  have br: "\<not> tx_complete tx \<and> 3 \<le> confirmations json"
  proof (rule ccontr)
    assume "\<not> (\<not> tx_complete tx \<and> 3 \<le> confirmations json)"
    then have "NOTIFY_handler js rx json db = (db1, Replied ''Recieved NOTIFY'')"
      using jobe cu f by (auto simp: NOTIFY_handler_def Let_def)
    then show False using q by simp
  qed
  obtain us db2 e0 where cj: "check_job_loop rx json True (balances json) [] db1 = (us, db2, e0)"
    by (cases "check_job_loop rx json True (balances json) [] db1") auto
  obtain d e where cl: "credit_loop js json us (update_tx_entry json db2) = (d, e)"
    by (cases "credit_loop js json us (update_tx_entry json db2)") auto
  have br1: "\<not> tx_complete tx" and br2: "3 \<le> confirmations json" using br by simp_all
  note b = NOTIFY_credit_branch[OF j cu f br1 br2 cj cl]
  have "fst (NOTIFY_handler js rx json db) = d" using b(1) by simp
  then show ?thesis using b(2-5) by simp
qed

text \<open>
  Claim C1, as amended. Starting from a table with at most one credit row per txid and
  user, every sequence of NOTIFY deliveries keeps it so. When a NOTIFY reaches the credit
  loop and, the entries before it having been credited, the txid and user of an entry
  already have a credit row, the insert is rejected and the handler stops there with a
  \<open>QueryFailedError\<close> and without a reply, the database being as it stood at that
  moment: this credit and the later ones are not applied, and what the NOTIFY wrote before
  stays. Whenever the handler ends on a rejected insert the database has changed: the job
  row is there, and the rows of the txid (there is one) are complete and processed, with
  the delivered confirmations.
\<close>

theorem credit_rows_unique_kept:
  "(credit_rows_unique db \<longrightarrow> credit_rows_unique (deliver_all js ps db))
   \<and> (has_job db (txid json)
        \<and> create_or_update_tx json
            (0 < length (filter (\<lambda>r. tx_txid r = txid json) (user_wallet_tx db))) db = Inr dbu
        \<and> find (\<lambda>r. tx_txid r = txid json) (user_wallet_tx dbu) = Some tx
        \<and> \<not> tx_complete tx \<and> 3 \<le> confirmations json
        \<and> check_job_loop rx json True (balances json) [] dbu
            = (pre @ (usr, uid, b) # rest, dbj, None)
        \<and> credit_loop js json pre (update_tx_entry json dbj) = (d, None)
        \<and> (\<exists>r\<in>set (user_wallet_tx d).
              tx_txid r = txid json \<and> tx_txtype r = 3 \<and> tx_userId r = Some uid)
       \<longrightarrow> NOTIFY_handler js rx json db = (d, Threw QueryFailedError))
   \<and> (snd (NOTIFY_handler js rx json db) = Threw QueryFailedError \<longrightarrow>
         fst (NOTIFY_handler js rx json db) \<noteq> db
       \<and> has_job (fst (NOTIFY_handler js rx json db)) (txid json)
       \<and> (\<exists>r\<in>set (user_wallet_tx (fst (NOTIFY_handler js rx json db))). tx_txid r = txid json)
       \<and> (\<forall>r\<in>set (user_wallet_tx (fst (NOTIFY_handler js rx json db))).
             tx_txid r = txid json \<longrightarrow>
             tx_complete r \<and> tx_processed r \<and> tx_confirms r = confirmations json))"
proof (intro conjI impI)
  assume "credit_rows_unique db"
  then show "credit_rows_unique (deliver_all js ps db)" by (rule deliver_all_unique)
next
  assume h: "has_job db (txid json)
        \<and> create_or_update_tx json
            (0 < length (filter (\<lambda>r. tx_txid r = txid json) (user_wallet_tx db))) db = Inr dbu
        \<and> find (\<lambda>r. tx_txid r = txid json) (user_wallet_tx dbu) = Some tx
        \<and> \<not> tx_complete tx \<and> 3 \<le> confirmations json
        \<and> check_job_loop rx json True (balances json) [] dbu
            = (pre @ (usr, uid, b) # rest, dbj, None)
        \<and> credit_loop js json pre (update_tx_entry json dbj) = (d, None)
        \<and> (\<exists>r\<in>set (user_wallet_tx d).
              tx_txid r = txid json \<and> tx_txtype r = 3 \<and> tx_userId r = Some uid)"
  then have dup: "credit_loop js json ((usr, uid, b) # rest) d = (d, Some QueryFailedError)"
    using credit_loop_duplicate[of d json uid js usr b rest] by blast
  have cl: "credit_loop js json (pre @ (usr, uid, b) # rest) (update_tx_entry json dbj)
            = (d, Some QueryFailedError)"
    using h dup by (simp add: credit_loop_append del: credit_loop.simps)
  from h have j: "has_job db (txid json)"
    and cu: "create_or_update_tx json
            (0 < length (filter (\<lambda>r. tx_txid r = txid json) (user_wallet_tx db))) db = Inr dbu"
    and f: "find (\<lambda>r. tx_txid r = txid json) (user_wallet_tx dbu) = Some tx"
    and nc: "\<not> tx_complete tx" and c3: "3 \<le> confirmations json"
    and cj: "check_job_loop rx json True (balances json) [] dbu
            = (pre @ (usr, uid, b) # rest, dbj, None)"
    by simp_all
  show "NOTIFY_handler js rx json db = (d, Threw QueryFailedError)"
    using NOTIFY_credit_branch(1)[OF j cu f nc c3 cj cl] by simp
next
  assume q: "snd (NOTIFY_handler js rx json db) = Threw QueryFailedError"
  note r = NOTIFY_rejected_insert[OF q]
  show "fst (NOTIFY_handler js rx json db) \<noteq> db" using r by simp
  show "has_job (fst (NOTIFY_handler js rx json db)) (txid json)" using r by simp
  show "\<exists>r\<in>set (user_wallet_tx (fst (NOTIFY_handler js rx json db))). tx_txid r = txid json"
    using r by simp
  show "\<forall>r\<in>set (user_wallet_tx (fst (NOTIFY_handler js rx json db))).
             tx_txid r = txid json \<longrightarrow>
             tx_complete r \<and> tx_processed r \<and> tx_confirms r = confirmations json"
    using r by simp
qed

text \<open>Claim C1, the amended statement at a NOTIFY for \<open>T1\<close> with two outputs, to the
  addresses \<open>A1\<close> and \<open>A2\<close> of the same user: the first credit stays, the second is
  rejected.\<close>

theorem credit_rows_unique_kept_witness:
  "credit_rows_unique (wallet_db [pending_job ''T1''] [] [\<lparr>bal_userId = ''U1'', bal_balance = 0\<rparr>])
   \<and> credit_rows_unique
       (deliver_all double
          [([], notify ''T1'' 3 [(''A1'', ''150000000''), (''A2'', ''100000000'')])]
          (wallet_db [pending_job ''T1''] [] [\<lparr>bal_userId = ''U1'', bal_balance = 0\<rparr>]))
   \<and> NOTIFY_handler double [] (notify ''T1'' 3 [(''A1'', ''150000000''), (''A2'', ''100000000'')])
         (wallet_db [pending_job ''T1''] [] [\<lparr>bal_userId = ''U1'', bal_balance = 0\<rparr>])
       = (wallet_db
            [\<lparr>job_job = ''T1'', job_type = ''X'', job_state = 3, job_userId = Some ''U1'',
              job_data = [], job_result = Some ''okay''\<rparr>]
            [\<lparr>tx_userId = None, tx_txid = ''T1'', tx_blockhash = [], tx_coinType = 0,
              tx_txtype = 1, tx_confirms = 3, tx_processed = True, tx_amount = None,
              tx_complete = True\<rparr>,
             \<lparr>tx_userId = Some ''U1'', tx_txid = ''T1'', tx_blockhash = ''A1'', tx_coinType = 0,
              tx_txtype = 3, tx_confirms = 3, tx_processed = True, tx_amount = Some (3 / 2),
              tx_complete = True\<rparr>]
            [\<lparr>bal_userId = ''U1'', bal_balance = 3 / 2\<rparr>],
          Threw QueryFailedError)
   \<and> fst (NOTIFY_handler double []
            (notify ''T1'' 3 [(''A1'', ''150000000''), (''A2'', ''100000000'')])
            (wallet_db [pending_job ''T1''] [] [\<lparr>bal_userId = ''U1'', bal_balance = 0\<rparr>]))
       \<noteq> wallet_db [pending_job ''T1''] [] [\<lparr>bal_userId = ''U1'', bal_balance = 0\<rparr>]
   \<and> has_job
        (fst (NOTIFY_handler double []
            (notify ''T1'' 3 [(''A1'', ''150000000''), (''A2'', ''100000000'')])
            (wallet_db [pending_job ''T1''] [] [\<lparr>bal_userId = ''U1'', bal_balance = 0\<rparr>])))
        ''T1''"
proof -
  define t1 :: "real wallet_tx" where
    "t1 = \<lparr>tx_userId = None, tx_txid = ''T1'', tx_blockhash = [], tx_coinType = 0,
          tx_txtype = 1, tx_confirms = 3, tx_processed = False, tx_amount = None,
          tx_complete = False\<rparr>"
  define t3 :: "real wallet_tx" where
    "t3 = \<lparr>tx_userId = Some ''U1'', tx_txid = ''T1'', tx_blockhash = ''A1'', tx_coinType = 0,
          tx_txtype = 3, tx_confirms = 3, tx_processed = True, tx_amount = Some (3 / 2),
          tx_complete = True\<rparr>"
  define bals :: "real wallet_balance list" where
    "bals = [\<lparr>bal_userId = ''U1'', bal_balance = 0\<rparr>]"
  define job3 where
    "job3 = \<lparr>job_job = ''T1'', job_type = ''X'', job_state = 3, job_userId = Some ''U1'',
              job_data = [], job_result = Some ''okay''\<rparr>"
  define n where "n = notify ''T1'' 3 [(''A1'', ''150000000''), (''A2'', ''100000000'')]"
  define db where "db = wallet_db [pending_job ''T1''] [] bals"
  define db1 where "db1 = wallet_db [pending_job ''T1''] [t1] bals"
  define db2 where "db2 = wallet_db [job3] [t1] bals"
  define d where
    "d = wallet_db [job3] [t1\<lparr>tx_complete := True, tx_processed := True\<rparr>, t3]
           [\<lparr>bal_userId = ''U1'', bal_balance = 3 / 2\<rparr>]"
  have tn: "txid n = ''T1''" "confirmations n = 3"
    "balances n = [\<lparr>address = ''A1'', balance = ''150000000''\<rparr>,
                   \<lparr>address = ''A2'', balance = ''100000000''\<rparr>]"
    by (simp_all add: n_def notify_def)
  have u: "credit_rows_unique db"
    by (simp add: credit_rows_unique_def db_def wallet_db_def)
  have h1: "has_job db (txid n)"
    by (simp add: has_job_def db_def wallet_db_def pending_job_def tn)
  have h2: "create_or_update_tx n
              (0 < length (filter (\<lambda>r. tx_txid r = txid n) (user_wallet_tx db))) db = Inr db1"
    by (simp add: create_or_update_tx_def insert_tx_def db_def db1_def wallet_db_def tn t1_def)
  have h3: "find (\<lambda>r. tx_txid r = txid n) (user_wallet_tx db1) = Some t1"
    by (simp add: db1_def wallet_db_def tn t1_def)
  have h4: "\<not> tx_complete t1" "3 \<le> confirmations n"
    by (simp_all add: t1_def tn)
  have h5: "check_job_loop [] n True (balances n) [] db1
            = ([(''A1'', ''U1'', ''150000000'')] @ (''A2'', ''U1'', ''100000000'') # [], db2, None)"
    by (simp add: tn db1_def db2_def wallet_db_def address_book_def process_job_def
          pending_job_def job3_def)
  have h6: "credit_loop double n [(''A1'', ''U1'', ''150000000'')] (update_tx_entry n db2)
            = (d, None)"
    by (simp add: update_tx_entry_def insert_tx_def db2_def d_def wallet_db_def tn t1_def t3_def
          bals_def pf_150 plus_0_150 Let_def)
  have h7: "\<exists>r\<in>set (user_wallet_tx d).
              tx_txid r = txid n \<and> tx_txtype r = 3 \<and> tx_userId r = Some ''U1''"
    by (simp add: d_def wallet_db_def tn t3_def)
  note kept = credit_rows_unique_kept[where db = db and js = double and json = n and dbu = db1
      and tx = t1 and rx = "[]" and pre = "[(''A1'', ''U1'', ''150000000'')]"
      and usr = "''A2''" and uid = "''U1''" and b = "''100000000''" and rest = "[]"
      and dbj = db2 and d = d and ps = "[([], n)]"]
  have a: "credit_rows_unique (deliver_all double [([], n)] db)" using kept u by blast
  have b: "NOTIFY_handler double [] n db = (d, Threw QueryFailedError)"
    using kept h1 h2 h3 h4 h5 h6 h7 by blast
  have c: "fst (NOTIFY_handler double [] n db) \<noteq> db
           \<and> has_job (fst (NOTIFY_handler double [] n db)) ''T1''"
    using kept b tn(1) by simp
  show ?thesis
    using u a b c
    unfolding db_def d_def n_def t1_def t3_def bals_def job3_def by simp
qed

text \<open>
  Claim C1 as stated fails: a NOTIFY for \<open>T1\<close> with two outputs, to the addresses \<open>A1\<close>
  and \<open>A2\<close> of the same user. The second credit row is rejected, and yet the NOTIFY is
  not undone: the transaction is complete, the job is processed, the first credit row is
  there and the balance has been credited with it.
\<close>

theorem duplicate_credit_keeps_earlier_writes:
  "NOTIFY_handler double []
     (notify ''T1'' 3 [(''A1'', ''100000000''), (''A2'', ''50000000'')])
     (wallet_db [pending_job ''T1''] [] [\<lparr>bal_userId = ''U1'', bal_balance = 0\<rparr>])
   = (wallet_db
        [\<lparr>job_job = ''T1'', job_type = ''X'', job_state = 3, job_userId = Some ''U1'',
          job_data = [], job_result = Some ''okay''\<rparr>]
        [\<lparr>tx_userId = None, tx_txid = ''T1'', tx_blockhash = [], tx_coinType = 0,
          tx_txtype = 1, tx_confirms = 3, tx_processed = True, tx_amount = None,
          tx_complete = True\<rparr>,
         \<lparr>tx_userId = Some ''U1'', tx_txid = ''T1'', tx_blockhash = ''A1'', tx_coinType = 0,
          tx_txtype = 3, tx_confirms = 3, tx_processed = True, tx_amount = Some 1,
          tx_complete = True\<rparr>]
        [\<lparr>bal_userId = ''U1'', bal_balance = 1\<rparr>],
      Threw QueryFailedError)"
  by (simp add: handler_eval pf_100 pf_050 plus_0_100)

text \<open>
  Claim C2, as amended. When a job row exists for the txid, a NOTIFY leaves every row of
  that txid (there is one) with \<open>confirms\<close> equal to the confirmations it delivered,
  whatever the value before, and leaves the rows of every other txid as they were.
\<close>

theorem NOTIFY_overwrites_confirms:
  "has_job db (txid json) \<longrightarrow>
     (\<exists>r\<in>set (user_wallet_tx (fst (NOTIFY_handler js rx json db))). tx_txid r = txid json)
   \<and> (\<forall>r\<in>set (user_wallet_tx (fst (NOTIFY_handler js rx json db))).
         tx_txid r = txid json \<longrightarrow> tx_confirms r = confirmations json)
   \<and> filter (\<lambda>r. tx_txid r \<noteq> txid json) (user_wallet_tx (fst (NOTIFY_handler js rx json db)))
     = filter (\<lambda>r. tx_txid r \<noteq> txid json) (user_wallet_tx db)"
proof
  assume j: "has_job db (txid json)"
  from NOTIFY_settles[OF j, of js rx] obtain tx where
    c: "\<forall>r\<in>set (user_wallet_tx (fst (NOTIFY_handler js rx json db))).
           tx_txid r = txid json \<longrightarrow> tx_confirms r = confirmations json"
    and f: "find (\<lambda>r. tx_txid r = txid json) (user_wallet_tx (fst (NOTIFY_handler js rx json db))) = Some tx"
    by blast
  have "\<exists>r\<in>set (user_wallet_tx (fst (NOTIFY_handler js rx json db))). tx_txid r = txid json"
    using find_Some_set[OF f] by blast
  then show "(\<exists>r\<in>set (user_wallet_tx (fst (NOTIFY_handler js rx json db))). tx_txid r = txid json)
   \<and> (\<forall>r\<in>set (user_wallet_tx (fst (NOTIFY_handler js rx json db))).
         tx_txid r = txid json \<longrightarrow> tx_confirms r = confirmations json)
   \<and> filter (\<lambda>r. tx_txid r \<noteq> txid json) (user_wallet_tx (fst (NOTIFY_handler js rx json db)))
     = filter (\<lambda>r. tx_txid r \<noteq> txid json) (user_wallet_tx db)"
    using c NOTIFY_others[of json js rx db] by blast
qed

lemma first_delivery_5:
  "fst (NOTIFY_handler double [] (notify ''T1'' 5 []) (wallet_db [pending_job ''T1''] [] []))
   = wallet_db [pending_job ''T1'']
       [\<lparr>tx_userId = None, tx_txid = ''T1'', tx_blockhash = [], tx_coinType = 0,
         tx_txtype = 1, tx_confirms = 5, tx_processed = True, tx_amount = None,
         tx_complete = True\<rparr>] []"
  by (simp add: handler_eval)

lemma second_delivery_2:
  "fst (NOTIFY_handler double [] (notify ''T1'' 2 [])
      (wallet_db [pending_job ''T1'']
       [\<lparr>tx_userId = None, tx_txid = ''T1'', tx_blockhash = [], tx_coinType = 0,
         tx_txtype = 1, tx_confirms = 5, tx_processed = True, tx_amount = None,
         tx_complete = True\<rparr>] []))
   = wallet_db [pending_job ''T1'']
       [\<lparr>tx_userId = None, tx_txid = ''T1'', tx_blockhash = [], tx_coinType = 0,
         tx_txtype = 1, tx_confirms = 2, tx_processed = True, tx_amount = None,
         tx_complete = True\<rparr>] []"
  by (simp add: handler_eval)

text \<open>
  Claim C2 as stated fails: confirmations 5 and then 2 for the same txid leave \<open>confirms\<close>
  at 2, after it was 5.
\<close>

theorem confirms_5_then_2:
  "map tx_confirms
     (user_wallet_tx
        (deliver_all double [([], notify ''T1'' 5 [])] (wallet_db [pending_job ''T1''] [] [])))
   = [5]
   \<and> map tx_confirms
     (user_wallet_tx
        (deliver_all double [([], notify ''T1'' 5 []), ([], notify ''T1'' 2 [])]
           (wallet_db [pending_job ''T1''] [] [])))
   = [2]"
  by (simp add: first_delivery_5 second_delivery_2) (simp add: wallet_db_def)

text \<open>Claim C2, the amended statement at a row with \<open>confirms = 5\<close> and a delivery of 2.\<close>

theorem NOTIFY_overwrites_confirms_witness:
  "has_job (wallet_db [pending_job ''T1'']
       [\<lparr>tx_userId = None, tx_txid = ''T1'', tx_blockhash = [], tx_coinType = 0,
         tx_txtype = 1, tx_confirms = 5, tx_processed = True, tx_amount = None,
         tx_complete = True\<rparr>] []) ''T1''
   \<and> map tx_confirms (user_wallet_tx (fst (NOTIFY_handler double [] (notify ''T1'' 2 [])
      (wallet_db [pending_job ''T1'']
       [\<lparr>tx_userId = None, tx_txid = ''T1'', tx_blockhash = [], tx_coinType = 0,
         tx_txtype = 1, tx_confirms = 5, tx_processed = True, tx_amount = None,
         tx_complete = True\<rparr>] [])))) = [2]"
proof -
  let ?db = "wallet_db [pending_job ''T1'']
       [\<lparr>tx_userId = None, tx_txid = ''T1'', tx_blockhash = [], tx_coinType = 0,
         tx_txtype = 1, tx_confirms = 5, tx_processed = True, tx_amount = None,
         tx_complete = True\<rparr>] []"
  have j: "has_job ?db (txid (notify ''T1'' 2 []))"
    by (simp add: has_job_def wallet_db_def pending_job_def notify_def)
  have t: "txid (notify ''T1'' 2 []) = ''T1''" "confirmations (notify ''T1'' 2 []) = 2"
    by (simp_all add: notify_def)
  from NOTIFY_overwrites_confirms[of ?db "notify ''T1'' 2 []" double "[]"] j
  have "\<forall>r\<in>set (user_wallet_tx (fst (NOTIFY_handler double [] (notify ''T1'' 2 []) ?db))).
         tx_txid r = ''T1'' \<longrightarrow> tx_confirms r = 2"
    unfolding t by blast
  then show ?thesis using j unfolding t second_delivery_2 by (simp add: wallet_db_def)
qed

text \<open>
  Claim C3. Delivering the same payload \<open>N \<ge> 1\<close> times leaves the database that one
  delivery leaves. When the transaction row the handler finds is complete, a NOTIFY
  credits nothing. With a job row for the txid on file it overwrites \<open>confirms\<close> on the
  rows of the txid, leaves jobs, balances, addresses and the number of rows as they were,
  and replies. With no job row on file it stops at line 209 with the database as it was:
  \<open>confirms\<close> is not refreshed and no reply is sent.
\<close>

theorem NOTIFY_redelivered:
  "(1 \<le> N \<longrightarrow> deliver N js rx json db = fst (NOTIFY_handler js rx json db))
   \<and> (find (\<lambda>r. tx_txid r = txid json) (user_wallet_tx db) = Some tx \<and> tx_complete tx \<longrightarrow>
        NOTIFY_handler js rx json db =
          (if has_job db (txid json)
           then (db\<lparr>user_wallet_tx :=
                      map (\<lambda>r. if tx_txid r = txid json
                                then r\<lparr>tx_confirms := confirmations json\<rparr> else r)
                          (user_wallet_tx db)\<rparr>,
                 Replied ''Recieved NOTIFY'')
           else (db, Threw ReferenceError)))"
proof (intro conjI impI)
  assume "1 \<le> N"
  then obtain n where "N = Suc n" by (cases N) auto
  then show "deliver N js rx json db = fst (NOTIFY_handler js rx json db)"
    by (simp only: deliver_once)
next
  assume h: "find (\<lambda>r. tx_txid r = txid json) (user_wallet_tx db) = Some tx \<and> tx_complete tx"
  show "NOTIFY_handler js rx json db =
          (if has_job db (txid json)
           then (db\<lparr>user_wallet_tx :=
                      map (\<lambda>r. if tx_txid r = txid json
                                then r\<lparr>tx_confirms := confirmations json\<rparr> else r)
                          (user_wallet_tx db)\<rparr>,
                 Replied ''Recieved NOTIFY'')
           else (db, Threw ReferenceError))"
  proof (cases "has_job db (txid json)")
    case True
    then show ?thesis using h NOTIFY_complete[of db json tx js rx] by simp
  next
    case False
    then show ?thesis using NOTIFY_no_job[of db json js rx] by simp
  qed
qed

text \<open>Claim C3 at scenario 2 delivered three times, and at a later NOTIFY for the
  completed transaction, with the job row on file and without it.\<close>

theorem NOTIFY_redelivered_witness:
  "(1::nat) \<le> 3
   \<and> deliver 3 double [] (notify ''T1'' 3 [(''A1'', ''150000000'')])
       (wallet_db [pending_job ''T1''] [] [\<lparr>bal_userId = ''U1'', bal_balance = 0\<rparr>])
     = wallet_db
        [\<lparr>job_job = ''T1'', job_type = ''X'', job_state = 3, job_userId = Some ''U1'',
          job_data = [], job_result = Some ''okay''\<rparr>]
        [\<lparr>tx_userId = None, tx_txid = ''T1'', tx_blockhash = [], tx_coinType = 0,
          tx_txtype = 1, tx_confirms = 3, tx_processed = True, tx_amount = None,
          tx_complete = True\<rparr>,
         \<lparr>tx_userId = Some ''U1'', tx_txid = ''T1'', tx_blockhash = ''A1'', tx_coinType = 0,
          tx_txtype = 3, tx_confirms = 3, tx_processed = True, tx_amount = Some (3 / 2),
          tx_complete = True\<rparr>]
        [\<lparr>bal_userId = ''U1'', bal_balance = 3 / 2\<rparr>]
   \<and> NOTIFY_handler double [] (notify ''T1'' 7 [(''A1'', ''150000000'')])
       (wallet_db [pending_job ''T1'']
          [\<lparr>tx_userId = None, tx_txid = ''T1'', tx_blockhash = [], tx_coinType = 0,
            tx_txtype = 1, tx_confirms = 3, tx_processed = True, tx_amount = None,
            tx_complete = True\<rparr>]
          [\<lparr>bal_userId = ''U1'', bal_balance = 3 / 2\<rparr>])
     = (wallet_db [pending_job ''T1'']
          [\<lparr>tx_userId = None, tx_txid = ''T1'', tx_blockhash = [], tx_coinType = 0,
            tx_txtype = 1, tx_confirms = 7, tx_processed = True, tx_amount = None,
            tx_complete = True\<rparr>]
          [\<lparr>bal_userId = ''U1'', bal_balance = 3 / 2\<rparr>],
        Replied ''Recieved NOTIFY'')
   \<and> NOTIFY_handler double [] (notify ''T1'' 7 [(''A1'', ''150000000'')])
       (wallet_db []
          [\<lparr>tx_userId = None, tx_txid = ''T1'', tx_blockhash = [], tx_coinType = 0,
            tx_txtype = 1, tx_confirms = 3, tx_processed = True, tx_amount = None,
            tx_complete = True\<rparr>]
          [\<lparr>bal_userId = ''U1'', bal_balance = 3 / 2\<rparr>])
     = (wallet_db []
          [\<lparr>tx_userId = None, tx_txid = ''T1'', tx_blockhash = [], tx_coinType = 0,
            tx_txtype = 1, tx_confirms = 3, tx_processed = True, tx_amount = None,
            tx_complete = True\<rparr>]
          [\<lparr>bal_userId = ''U1'', bal_balance = 3 / 2\<rparr>],
        Threw ReferenceError)"
proof -
  define tx :: "real wallet_tx" where
    "tx = \<lparr>tx_userId = None, tx_txid = ''T1'', tx_blockhash = [], tx_coinType = 0,
            tx_txtype = 1, tx_confirms = 3, tx_processed = True, tx_amount = None,
            tx_complete = True\<rparr>"
  define bals :: "real wallet_balance list" where
    "bals = [\<lparr>bal_userId = ''U1'', bal_balance = 3 / 2\<rparr>]"
  define n where "n = notify ''T1'' 3 [(''A1'', ''150000000'')]"
  define m where "m = notify ''T1'' 7 [(''A1'', ''150000000'')]"
  define db0 where
    "db0 = wallet_db [pending_job ''T1''] [] [\<lparr>bal_userId = ''U1'', bal_balance = 0\<rparr>]"
  define dbj where "dbj = wallet_db [pending_job ''T1''] [tx] bals"
  define dbn where "dbn = wallet_db [] [tx] bals"
  have tm: "txid m = ''T1''" "confirmations m = 7" by (simp_all add: m_def notify_def)
  have a: "deliver 3 double [] n db0 = fst (NOTIFY_handler double [] n db0)"
    using NOTIFY_redelivered[of 3 double "[]" n db0] by simp
  have fj: "find (\<lambda>r. tx_txid r = txid m) (user_wallet_tx dbj) = Some tx \<and> tx_complete tx"
    by (simp add: dbj_def wallet_db_def tm tx_def)
  have fn: "find (\<lambda>r. tx_txid r = txid m) (user_wallet_tx dbn) = Some tx \<and> tx_complete tx"
    by (simp add: dbn_def wallet_db_def tm tx_def)
  have j: "has_job dbj (txid m)"
    by (simp add: has_job_def dbj_def wallet_db_def pending_job_def tm)
  have nj: "\<not> has_job dbn (txid m)"
    by (simp add: has_job_def dbn_def wallet_db_def)
  have b: "NOTIFY_handler double [] m dbj =
        (dbj\<lparr>user_wallet_tx :=
              map (\<lambda>r. if tx_txid r = txid m then r\<lparr>tx_confirms := confirmations m\<rparr> else r)
                  (user_wallet_tx dbj)\<rparr>,
         Replied ''Recieved NOTIFY'')"
    using NOTIFY_redelivered[of 0 double "[]" m dbj tx] fj j by simp
  have c: "NOTIFY_handler double [] m dbn = (dbn, Threw ReferenceError)"
    using NOTIFY_redelivered[of 0 double "[]" m dbn tx] fn nj by simp
  have s: "fst (NOTIFY_handler double [] n db0)
     = wallet_db
        [\<lparr>job_job = ''T1'', job_type = ''X'', job_state = 3, job_userId = Some ''U1'',
          job_data = [], job_result = Some ''okay''\<rparr>]
        [\<lparr>tx_userId = None, tx_txid = ''T1'', tx_blockhash = [], tx_coinType = 0,
          tx_txtype = 1, tx_confirms = 3, tx_processed = True, tx_amount = None,
          tx_complete = True\<rparr>,
         \<lparr>tx_userId = Some ''U1'', tx_txid = ''T1'', tx_blockhash = ''A1'', tx_coinType = 0,
          tx_txtype = 3, tx_confirms = 3, tx_processed = True, tx_amount = Some (3 / 2),
          tx_complete = True\<rparr>]
        [\<lparr>bal_userId = ''U1'', bal_balance = 3 / 2\<rparr>]"
    unfolding n_def db0_def scenario2_with_job by simp
  have b': "NOTIFY_handler double [] m dbj
     = (wallet_db [pending_job ''T1''] [tx\<lparr>tx_confirms := 7\<rparr>] bals, Replied ''Recieved NOTIFY'')"
    unfolding b by (simp add: dbj_def wallet_db_def tm tx_def)
  show ?thesis
    using a s b' c
    unfolding n_def m_def db0_def dbj_def dbn_def tx_def bals_def by simp
qed





text \<open>
  Claim C8, at the first HEARTBEAT of a coin: the row is inserted with the six fields of
  the payload and \<open>updatedAt\<close> is not written.
\<close>

theorem first_heartbeat_leaves_updatedAt:
  "HEARTBEAT_handler now (heartbeat 900) (wallet_db [] [] [])
   = ((wallet_db [] [] [])\<lparr>user_wallet_status :=
         [\<lparr>st_type = ''X'', st_online = True, st_synced = True, st_crawling = False,
           st_blockheight = 900, st_blockhash = ''H'', st_blocktime = 1700000000,
           st_updatedAt = None\<rparr>]\<rparr>,
      Replied ''Recieved HEARTBEAT'')"
  by (simp add: HEARTBEAT_handler_def heartbeat_def wallet_db_def)

text \<open>Two heartbeats of a coin that had no row leave one row, with the values of the
  second and its time.\<close>

lemma heartbeat_twice:
  assumes "hb_coin h2 = hb_coin h1"
      and "\<forall>s\<in>set (user_wallet_status db). st_type s \<noteq> hb_coin h1"
  shows "filter (\<lambda>s. st_type s = hb_coin h1)
           (user_wallet_status
              (fst (HEARTBEAT_handler now2 h2 (fst (HEARTBEAT_handler now1 h1 db)))))
         = [\<lparr>st_type = hb_coin h2, st_online = hb_online h2, st_synced = hb_synced h2,
             st_crawling = hb_crawling h2, st_blockheight = hb_blockheight h2,
             st_blockhash = hb_bestBlockHash h2, st_blocktime = hb_blocktime h2,
             st_updatedAt = Some now2\<rparr>]"
proof -
  have n: "filter (\<lambda>s. st_type s = hb_coin h1) (user_wallet_status db) = []"
    using assms(2) by (simp add: filter_empty_conv)
  have m: "map (\<lambda>s. if st_type s = hb_coin h1 then f s else s) (user_wallet_status db)
           = user_wallet_status db" for f
    using assms(2) by (induction "user_wallet_status db") (auto intro: map_idI)
  show ?thesis
    using assms(1) n by (simp add: HEARTBEAT_handler_def Let_def m)
qed

lemma filter_map_commute:
  "(\<And>x. P (f x) = P x) \<Longrightarrow> filter P (map f xs) = map f (filter P xs)"
  by (induction xs) auto

text \<open>
  The same for a coin with at most one row: two heartbeats leave exactly one row of the
  coin, and its fields are those of the second heartbeat.
\<close>

lemma heartbeat_twice_general:
  assumes c: "hb_coin h2 = hb_coin h1"
      and u: "length (filter (\<lambda>s. st_type s = hb_coin h1) (user_wallet_status db)) \<le> 1"
  shows "filter (\<lambda>s. st_type s = hb_coin h1)
           (user_wallet_status
              (fst (HEARTBEAT_handler now2 h2 (fst (HEARTBEAT_handler now1 h1 db)))))
         = [\<lparr>st_type = hb_coin h2, st_online = hb_online h2, st_synced = hb_synced h2,
             st_crawling = hb_crawling h2, st_blockheight = hb_blockheight h2,
             st_blockhash = hb_bestBlockHash h2, st_blocktime = hb_blocktime h2,
             st_updatedAt = Some now2\<rparr>]"
proof (cases "filter (\<lambda>s. st_type s = hb_coin h1) (user_wallet_status db)")
  case Nil
  then have "\<forall>s\<in>set (user_wallet_status db). st_type s \<noteq> hb_coin h1"
    by (simp add: filter_empty_conv)
  then show ?thesis using c by (rule_tac heartbeat_twice) auto
next
  case (Cons s rest)
  with u have r: "rest = []" by simp
  have "s \<in> set (filter (\<lambda>s. st_type s = hb_coin h1) (user_wallet_status db))"
    unfolding Cons by simp
  then have t: "st_type s = hb_coin h1" by simp
  define u1 :: "wallet_status \<Rightarrow> wallet_status" where "u1 = (\<lambda>s. if st_type s = hb_coin h1
                              then s\<lparr>st_online := hb_online h1,
                                     st_synced := hb_synced h1,
                                     st_crawling := hb_crawling h1,
                                     st_blockheight := hb_blockheight h1,
                                     st_blockhash := hb_bestBlockHash h1,
                                     st_blocktime := hb_blocktime h1,
                                     st_updatedAt := Some now1\<rparr>
                              else s)"
  define u2 :: "wallet_status \<Rightarrow> wallet_status" where "u2 = (\<lambda>s. if st_type s = hb_coin h1
                              then s\<lparr>st_online := hb_online h2,
                                     st_synced := hb_synced h2,
                                     st_crawling := hb_crawling h2,
                                     st_blockheight := hb_blockheight h2,
                                     st_blockhash := hb_bestBlockHash h2,
                                     st_blocktime := hb_blocktime h2,
                                     st_updatedAt := Some now2\<rparr>
                              else s)"
  have p1: "\<And>x. (st_type (u1 x) = hb_coin h1) = (st_type x = hb_coin h1)" by (simp add: u1_def)
  have p2: "\<And>x. (st_type (u2 x) = hb_coin h1) = (st_type x = hb_coin h1)" by (simp add: u2_def)
  have ne: "filter (\<lambda>s. st_type s = hb_coin h1) (user_wallet_status db) \<noteq> []"
    using Cons by simp
  have h1: "fst (HEARTBEAT_handler now1 h1 db)
            = db\<lparr>user_wallet_status := map u1 (user_wallet_status db)\<rparr>"
    using ne by (simp add: HEARTBEAT_handler_def Let_def u1_def)
  have f1: "filter (\<lambda>s. st_type s = hb_coin h1) (map u1 (user_wallet_status db)) = [u1 s]"
    using filter_map_commute[of "\<lambda>s. st_type s = hb_coin h1" u1, OF p1] Cons r by simp
  have h2: "fst (HEARTBEAT_handler now2 h2 (db\<lparr>user_wallet_status := map u1 (user_wallet_status db)\<rparr>))
            = db\<lparr>user_wallet_status := map u2 (map u1 (user_wallet_status db))\<rparr>"
    using f1 c by (simp add: HEARTBEAT_handler_def Let_def u2_def)
  have "filter (\<lambda>s. st_type s = hb_coin h1) (map u2 (map u1 (user_wallet_status db))) = [u2 (u1 s)]"
    unfolding filter_map_commute[of "\<lambda>s. st_type s = hb_coin h1" u2, OF p2] f1 by simp
  moreover have "u2 (u1 s) = \<lparr>st_type = hb_coin h2, st_online = hb_online h2, st_synced = hb_synced h2,
             st_crawling = hb_crawling h2, st_blockheight = hb_blockheight h2,
             st_blockhash = hb_bestBlockHash h2, st_blocktime = hb_blocktime h2,
             st_updatedAt = Some now2\<rparr>"
    using t c by (cases s) (simp add: u1_def u2_def)
  ultimately show ?thesis unfolding h1 h2 by simp
qed

lemma NOTIFY_outcome:
  "snd (NOTIFY_handler js rx json db) = Replied ''Recieved NOTIFY''
   \<or> (\<exists>e. snd (NOTIFY_handler js rx json db) = Threw e)"
  by (auto simp: NOTIFY_handler_def Let_def split: sum.splits option.splits prod.splits)

lemma NOTIFY_below_threshold:
  assumes j: "has_job db (txid json)" and c: "confirmations json < 3"
  shows "snd (NOTIFY_handler js rx json db) = Replied ''Recieved NOTIFY''"
proof -
  have jobe: "0 < length (filter (\<lambda>j. job_job j = txid json) (user_wallet_job db))"
    using j by (simp add: has_job_def filter_ne_iff)
  obtain db1 where cu: "create_or_update_tx json
        (0 < length (filter (\<lambda>r. tx_txid r = txid json) (user_wallet_tx db))) db = Inr db1"
    using create_or_update_tx_result[of json db] by blast
  show ?thesis using jobe cu c
    by (auto simp: NOTIFY_handler_def Let_def split: option.splits)
qed

text \<open>
  What the handlers answer. Every HEARTBEAT is answered with the literal of line 419. A
  NOTIFY is answered with the literal of line 367 unless the handler stops with an
  exception, in which case it sends nothing; it does answer whenever a job row exists for
  the txid and the confirmations are below 3.
\<close>

lemma handler_replies:
  "snd (HEARTBEAT_handler now hb db) = Replied ''Recieved HEARTBEAT''
   \<and> (snd (NOTIFY_handler js rx json db) = Replied ''Recieved NOTIFY''
      \<or> (\<exists>e. snd (NOTIFY_handler js rx json db) = Threw e))
   \<and> (has_job db (txid json) \<and> confirmations json < 3 \<longrightarrow>
        snd (NOTIFY_handler js rx json db) = Replied ''Recieved NOTIFY'')"
  using NOTIFY_outcome[of js rx json db] NOTIFY_below_threshold[of db json js rx]
  by (simp add: HEARTBEAT_handler_def Let_def)

text \<open>
  Claim C9, at a first NOTIFY with a job on file and at a first HEARTBEAT: the strings
  sent are \<open>Recieved NOTIFY\<close> and \<open>Recieved HEARTBEAT\<close>, not \<open>Received NOTIFY\<close> and
  \<open>Received HEARTBEAT\<close>. (Line 239 of the same handler spells the word \<open>Received\<close>.)
\<close>

theorem replies_as_sent:
  "snd (NOTIFY_handler double [] (notify ''T1'' 0 [(''A1'', ''150000000'')])
          (wallet_db [pending_job ''T1''] [] [])) = Replied ''Recieved NOTIFY''
   \<and> snd (HEARTBEAT_handler 1 (heartbeat 900) (wallet_db [] [] [])) = Replied ''Recieved HEARTBEAT''
   \<and> Replied ''Recieved NOTIFY'' \<noteq> Replied ''Received NOTIFY''
   \<and> Replied ''Recieved HEARTBEAT'' \<noteq> Replied ''Received HEARTBEAT''"
  by (simp add: handler_eval HEARTBEAT_handler_def heartbeat_def)

text \<open>
  Claim C10. For a call with a credential, let the target be \<open>ps.userId\<close> when given and
  the caller otherwise. If no user has the target id the call fails with \<open>noSuchUser\<close>.
  Otherwise it returns the empty string when no address row belongs to that user, and the
  address of such a row when there is one.
\<close>

theorem wallet_address_endpoint_result:
  "me = Some m \<longrightarrow>
   (let target = (case ps_userId ps of Some i \<Rightarrow> i | None \<Rightarrow> user_id m) in
      ((\<forall>u\<in>set Users. user_id u \<noteq> target) \<longrightarrow>
         wallet_address_endpoint Users UserWalletAddresses ps me = Inl noSuchUser)
    \<and> ((\<exists>u\<in>set Users. user_id u = target) \<longrightarrow>
         ((\<forall>w\<in>set UserWalletAddresses. addr_userId w \<noteq> Some target) \<longrightarrow>
            wallet_address_endpoint Users UserWalletAddresses ps me = Inr [])
       \<and> ((\<exists>w\<in>set UserWalletAddresses. addr_userId w = Some target) \<longrightarrow>
            (\<exists>w\<in>set UserWalletAddresses. addr_userId w = Some target
               \<and> wallet_address_endpoint Users UserWalletAddresses ps me = Inr (addr_address w)))))"
proof
  assume me: "me = Some m"
  define target where "target = (case ps_userId ps of Some i \<Rightarrow> i | None \<Rightarrow> user_id m)"
  have none: "wallet_address_endpoint Users UserWalletAddresses ps me = Inl noSuchUser"
    if "\<forall>u\<in>set Users. user_id u \<noteq> target"
  proof -
    have "find (\<lambda>u. user_id u = target) Users = None" using that by (simp add: find_None_iff)
    then show ?thesis by (simp add: wallet_address_endpoint_def me target_def)
  qed
  have some: "((\<forall>w\<in>set UserWalletAddresses. addr_userId w \<noteq> Some target) \<longrightarrow>
            wallet_address_endpoint Users UserWalletAddresses ps me = Inr [])
       \<and> ((\<exists>w\<in>set UserWalletAddresses. addr_userId w = Some target) \<longrightarrow>
            (\<exists>w\<in>set UserWalletAddresses. addr_userId w = Some target
               \<and> wallet_address_endpoint Users UserWalletAddresses ps me = Inr (addr_address w)))"
    if "\<exists>u\<in>set Users. user_id u = target"
  proof -
    have "find (\<lambda>u. user_id u = target) Users \<noteq> None"
      using that by (simp add: find_None_iff')
    then obtain u where f: "find (\<lambda>u. user_id u = target) Users = Some u" by auto
    have u: "user_id u = target" using find_Some_set[OF f] by simp
    show ?thesis
    proof (intro conjI impI)
      assume "\<forall>w\<in>set UserWalletAddresses. addr_userId w \<noteq> Some target"
      then have "find (\<lambda>w. addr_userId w = Some target) UserWalletAddresses = None"
        by (simp add: find_None_iff)
      then show "wallet_address_endpoint Users UserWalletAddresses ps me = Inr []"
        using f u by (simp add: wallet_address_endpoint_def me target_def)
    next
      assume "\<exists>w\<in>set UserWalletAddresses. addr_userId w = Some target"
      then have "find (\<lambda>w. addr_userId w = Some target) UserWalletAddresses \<noteq> None"
        by (simp add: find_None_iff')
      then obtain w where g: "find (\<lambda>w. addr_userId w = Some target) UserWalletAddresses = Some w"
        by auto
      have "wallet_address_endpoint Users UserWalletAddresses ps me = Inr (addr_address w)"
        using f u g by (simp add: wallet_address_endpoint_def me target_def)
      then show "\<exists>w\<in>set UserWalletAddresses. addr_userId w = Some target
               \<and> wallet_address_endpoint Users UserWalletAddresses ps me = Inr (addr_address w)"
        using find_Some_set[OF g] by blast
    qed
  qed
  show "let target = (case ps_userId ps of Some i \<Rightarrow> i | None \<Rightarrow> user_id m) in
      ((\<forall>u\<in>set Users. user_id u \<noteq> target) \<longrightarrow>
         wallet_address_endpoint Users UserWalletAddresses ps me = Inl noSuchUser)
    \<and> ((\<exists>u\<in>set Users. user_id u = target) \<longrightarrow>
         ((\<forall>w\<in>set UserWalletAddresses. addr_userId w \<noteq> Some target) \<longrightarrow>
            wallet_address_endpoint Users UserWalletAddresses ps me = Inr [])
       \<and> ((\<exists>w\<in>set UserWalletAddresses. addr_userId w = Some target) \<longrightarrow>
            (\<exists>w\<in>set UserWalletAddresses. addr_userId w = Some target
               \<and> wallet_address_endpoint Users UserWalletAddresses ps me = Inr (addr_address w))))"
    unfolding Let_def target_def[symmetric] using none some by blast
qed

text \<open>Claim C10 at a caller with an address, a target without one and an unknown target.\<close>

theorem wallet_address_endpoint_result_witness:
  "wallet_address_endpoint [\<lparr>user_id = ''U1''\<rparr>, \<lparr>user_id = ''U2''\<rparr>] address_book
     \<lparr>ps_userId = None, ps_username = None, ps_host = None\<rparr> (Some \<lparr>user_id = ''U1''\<rparr>)
   = Inr ''A1''
   \<and> wallet_address_endpoint [\<lparr>user_id = ''U1''\<rparr>, \<lparr>user_id = ''U2''\<rparr>] address_book
     \<lparr>ps_userId = Some ''U2'', ps_username = None, ps_host = None\<rparr> (Some \<lparr>user_id = ''U1''\<rparr>)
   = Inr []
   \<and> wallet_address_endpoint [\<lparr>user_id = ''U1''\<rparr>, \<lparr>user_id = ''U2''\<rparr>] address_book
     \<lparr>ps_userId = Some ''U3'', ps_username = None, ps_host = None\<rparr> (Some \<lparr>user_id = ''U1''\<rparr>)
   = Inl noSuchUser"
  using
    wallet_address_endpoint_result[of "Some \<lparr>user_id = ''U1''\<rparr>" "\<lparr>user_id = ''U1''\<rparr>"
      "\<lparr>ps_userId = None, ps_username = None, ps_host = None\<rparr>"
      "[\<lparr>user_id = ''U1''\<rparr>, \<lparr>user_id = ''U2''\<rparr>]" address_book]
    wallet_address_endpoint_result[of "Some \<lparr>user_id = ''U1''\<rparr>" "\<lparr>user_id = ''U1''\<rparr>"
      "\<lparr>ps_userId = Some ''U2'', ps_username = None, ps_host = None\<rparr>"
      "[\<lparr>user_id = ''U1''\<rparr>, \<lparr>user_id = ''U2''\<rparr>]" address_book]
    wallet_address_endpoint_result[of "Some \<lparr>user_id = ''U1''\<rparr>" "\<lparr>user_id = ''U1''\<rparr>"
      "\<lparr>ps_userId = Some ''U3'', ps_username = None, ps_host = None\<rparr>"
      "[\<lparr>user_id = ''U1''\<rparr>, \<lparr>user_id = ''U2''\<rparr>]" address_book]
  by (simp add: address_book_def wallet_address_endpoint_def)

end
